theory Spec2Isabelle
  imports Complex_Main
begin

section \<open>Data model\<close>

text \<open>
  The engine of \<^verbatim>\<open>backend/app/ml/recommender.py\<close> is one Python object,
  \<^verbatim>\<open>HybridRecommender\<close>, whose attributes are rewritten by training and read
  by serving. Numeric arrays (numpy, scipy, FAISS) are modelled over the reals:
  rounding of floating point numbers is outside this development. Identifiers
  (user keys, stock codes) are strings.
\<close>

datatype py_error =
    KeyError | IndexError | ValueError | AttributeError | AssertionError
  | RuntimeError | UnpicklingError | OSError

text \<open>A document of the \<^verbatim>\<open>transactions\<close> collection, projected as
  \<^verbatim>\<open>train_model_task\<close> fetches it.\<close>

record transaction =
  user_id :: string
  stock_code :: string
  quantity :: int

text \<open>A document of the \<^verbatim>\<open>products\<close> collection; \<open>p_id\<close> is its
  \<^verbatim>\<open>_id\<close> (the stock code).\<close>

record product =
  p_id :: string
  description :: string

type_synonym matrix = "real list list"

text \<open>A scikit-learn \<^verbatim>\<open>TruncatedSVD\<close> object: it has the attribute
  \<^verbatim>\<open>components_\<close> only once it has been fitted.\<close>

datatype svd = Unfitted | Fitted matrix

text \<open>A FAISS \<^verbatim>\<open>IndexFlatL2\<close>: its dimension and the vectors added so far.\<close>

record flat_index =
  ix_dim :: nat
  ix_vectors :: "real list list"

text \<open>A file of the model directory (\<^verbatim>\<open>settings.MODEL_PATH\<close>).\<close>

datatype 'a disk_file = Missing | Corrupt | Stored 'a

type_synonym svd_pickle = "svd \<times> matrix \<times> (string \<rightharpoonup> nat) \<times> (nat \<rightharpoonup> string)"
type_synonym mappings_pickle = "(int \<rightharpoonup> string) \<times> (string \<rightharpoonup> nat) \<times> (string \<rightharpoonup> string)"

text \<open>
  The state the engine works on: the attributes of the module-level singleton
  \<^verbatim>\<open>recommender\<close> and the three files training writes and
  \<^verbatim>\<open>load_models\<close> reads. \<open>user_factors\<close> is \<open>None\<close> while the object has
  no such attribute (\<^verbatim>\<open>__init__\<close> does not set it); \<open>product_data\<close> keeps the
  description stored for a stock code.
\<close>

record engine =
  svd_model :: "svd option"
  sentence_model :: bool
  faiss_index :: "flat_index option"
  product_map :: "int \<rightharpoonup> string"
  reverse_product_map :: "string \<rightharpoonup> nat"
  product_data :: "string \<rightharpoonup> string"
  user_map :: "string \<rightharpoonup> nat"
  reverse_user_map :: "nat \<rightharpoonup> string"
  initialized :: bool
  user_factors :: "matrix option"
  svd_pkl :: "svd_pickle disk_file"
  product_index :: "flat_index disk_file"
  mappings_pkl :: "mappings_pickle disk_file"

text \<open>\<^verbatim>\<open>__init__\<close> on an empty model directory.\<close>

definition init_engine :: engine where
  "init_engine =
     \<lparr> svd_model = None, sentence_model = False, faiss_index = None,
       product_map = Map.empty, reverse_product_map = Map.empty,
       product_data = Map.empty, user_map = Map.empty,
       reverse_user_map = Map.empty, initialized = False,
       user_factors = None, svd_pkl = Missing, product_index = Missing,
       mappings_pkl = Missing \<rparr>"

text \<open>
  A scipy sparse matrix built from coordinates: its shape and the stored
  (row, column, value) entries. The constructor keeps every entry it is given and the
  value of a cell is the sum of the entries stored at its position.
\<close>

record sparse =
  shape :: "nat \<times> nat"
  entries :: "(nat \<times> nat \<times> real) list"

definition cell :: "sparse \<Rightarrow> nat \<Rightarrow> nat \<Rightarrow> real" where
  "cell X r c =
     sum_list (map (\<lambda>(r', c', v). v) (filter (\<lambda>(r', c', v). r' = r \<and> c' = c) (entries X)))"

text \<open>
  The collaborators the engine calls and this repository does not define: the numerical
  core of the truncated singular value decomposition, which returns the user factors
  and the item factors (\<^verbatim>\<open>components_\<close>) for a requested number of components;
  the sentence encoder; whether the encoder's model can be loaded; and numpy's
  \<^verbatim>\<open>argsort\<close>, whose order among equal values is not specified.
\<close>

record libs =
  svd_solver :: "nat \<Rightarrow> sparse \<Rightarrow> matrix \<times> matrix"
  encode :: "string \<Rightarrow> real list"
  st_available :: bool
  np_argsort :: "real list \<Rightarrow> nat list"

section \<open>Identifier registry (\<^verbatim>\<open>_train_sync\<close>, lines 67 to 75)\<close>

text \<open>A dict comprehension \<^verbatim>\<open>{k: v for ...}\<close>: a later binding of a key
  overwrites an earlier one.\<close>

definition dict_of :: "('k \<times> 'v) list \<Rightarrow> ('k \<rightharpoonup> 'v)" where
  "dict_of kvs = map_of (rev kvs)"

text \<open>\<^verbatim>\<open>Series.unique()\<close>: the distinct values in order of first appearance.\<close>

definition unique :: "'a list \<Rightarrow> 'a list" where
  "unique xs = rev (remdups (rev xs))"

definition build_user_map :: "string list \<Rightarrow> (string \<rightharpoonup> nat)" where
  "build_user_map unique_users =
     dict_of (map (\<lambda>(i, uid). (uid, i)) (enumerate 0 unique_users))"

definition build_reverse_user_map :: "string list \<Rightarrow> (nat \<rightharpoonup> string)" where
  "build_reverse_user_map unique_users = dict_of (enumerate 0 unique_users)"

definition build_reverse_product_map :: "string list \<Rightarrow> (string \<rightharpoonup> nat)" where
  "build_reverse_product_map item_codes =
     dict_of (map (\<lambda>(i, code). (code, i)) (enumerate 0 item_codes))"

definition build_product_map :: "string list \<Rightarrow> (int \<rightharpoonup> string)" where
  "build_product_map item_codes =
     dict_of (map (\<lambda>(i, code). (int i, code)) (enumerate 0 item_codes))"

text \<open>Lines 67 to 71: the user registry replaces the engine's own.\<close>

definition register_users :: "transaction list \<Rightarrow> engine \<Rightarrow> engine" where
  "register_users ts s =
     (let unique_users = unique (map user_id ts)
      in s\<lparr> user_map := build_user_map unique_users,
            reverse_user_map := build_reverse_user_map unique_users \<rparr>)"

text \<open>Lines 73 to 75: the item registry, from the products in collection order.\<close>

definition register_items :: "product list \<Rightarrow> engine \<Rightarrow> engine" where
  "register_items ps s =
     (let item_codes = map p_id ps
      in s\<lparr> reverse_product_map := build_reverse_product_map item_codes,
            product_map := build_product_map item_codes \<rparr>)"

section \<open>Interaction matrix (\<^verbatim>\<open>_train_sync\<close>, lines 77 to 88)\<close>

text \<open>\<^verbatim>\<open>np.log1p\<close>.\<close>

definition log1p :: "real \<Rightarrow> real" where
  "log1p x = ln (1 + x)"

text \<open>Boolean-mask indexing \<^verbatim>\<open>xs[mask]\<close>.\<close>

definition mask_select :: "bool list \<Rightarrow> 'a list \<Rightarrow> 'a list" where
  "mask_select msk xs = map snd (filter fst (zip msk xs))"

text \<open>
  \<^verbatim>\<open>csr_matrix((data, (row, col)), shape=...)\<close>: scipy refuses a negative index and
  an index beyond the shape with a \<^verbatim>\<open>ValueError\<close>; entries at the same position
  are summed (see \<open>cell\<close>).
\<close>

definition csr_matrix ::
  "real list \<Rightarrow> int list \<times> int list \<Rightarrow> nat \<times> nat \<Rightarrow> py_error + sparse" where
  "csr_matrix data rc shp =
     (let rows = fst rc; cols = snd rc in
      if list_ex (\<lambda>r. r < 0 \<or> int (fst shp) \<le> r) rows
         \<or> list_ex (\<lambda>c. c < 0 \<or> int (snd shp) \<le> c) cols
      then Inl ValueError
      else Inr \<lparr> shape = shp, entries = zip (map nat rows) (zip (map nat cols) data) \<rparr>)"

text \<open>
  Lines 77 to 88, given the two registries and the shape. Line 77 keeps the
  transactions whose stock code is a key of \<open>reverse_product_map\<close>; lines 79 and 80 map
  identifiers to indices, \<open>-1\<close> for one that is missing; line 81 dampens a positive
  quantity and weighs any other quantity 0; line 83 masks the rows with both indices.
\<close>

definition interaction_matrix ::
  "(string \<rightharpoonup> nat) \<Rightarrow> (string \<rightharpoonup> nat) \<Rightarrow> nat \<times> nat \<Rightarrow> transaction list
     \<Rightarrow> py_error + sparse" where
  "interaction_matrix umap rpmap shp ts =
     (let ts' = filter (\<lambda>t. rpmap (stock_code t) \<noteq> None) ts;
          user_indices = map (\<lambda>t. case umap (user_id t) of Some i \<Rightarrow> int i | None \<Rightarrow> - 1) ts';
          item_indices = map (\<lambda>t. case rpmap (stock_code t) of Some i \<Rightarrow> int i | None \<Rightarrow> - 1) ts';
          quantities = map (\<lambda>t. if quantity t > 0 then log1p (real_of_int (quantity t)) else 0) ts';
          valid_mask = map2 (\<lambda>u i. u \<ge> 0 \<and> i \<ge> 0) user_indices item_indices
      in csr_matrix (mask_select valid_mask quantities)
           (mask_select valid_mask user_indices, mask_select valid_mask item_indices) shp)"

section \<open>Factor model and vector index (library calls of \<^verbatim>\<open>_train_sync\<close>)\<close>

text \<open>Line 90: \<^verbatim>\<open>TruncatedSVD(n_components=50, random_state=42)\<close>.\<close>

definition n_components :: nat where
  "n_components = 50"

text \<open>
  \<^verbatim>\<open>TruncatedSVD.fit_transform\<close> with the default randomized algorithm: scikit-learn
  checks the requested number of components against the number of columns of the
  matrix and raises \<^verbatim>\<open>ValueError\<close> when it is larger; otherwise it factorises.
  The factors themselves are the collaborator's (\<open>svd_solver\<close>).
\<close>

definition fit_transform :: "libs \<Rightarrow> nat \<Rightarrow> sparse \<Rightarrow> py_error + matrix \<times> matrix" where
  "fit_transform L k X =
     (if k > snd (shape X) then Inl ValueError else Inr (svd_solver L k X))"

text \<open>\<^verbatim>\<open>faiss.IndexFlatL2(dimension)\<close> and \<^verbatim>\<open>index.add(vectors)\<close>: the
  wrapper asserts that the vectors have the index's dimension.\<close>

definition IndexFlatL2 :: "nat \<Rightarrow> flat_index" where
  "IndexFlatL2 d = \<lparr> ix_dim = d, ix_vectors = [] \<rparr>"

definition index_add :: "flat_index \<Rightarrow> real list list \<Rightarrow> py_error + flat_index" where
  "index_add ix vs =
     (if list_all (\<lambda>v. length v = ix_dim ix) vs
      then Inr (ix\<lparr> ix_vectors := ix_vectors ix @ vs \<rparr>)
      else Inl AssertionError)"

text \<open>Squared Euclidean distance of two vectors of the same dimension.\<close>

definition l2sqr :: "real list \<Rightarrow> real list \<Rightarrow> real" where
  "l2sqr x y = sum_list (map2 (\<lambda>a b. (a - b) ^ 2) x y)"

text \<open>The distance FAISS reports beside the index \<open>-1\<close> when the index holds fewer than
  \<open>k\<close> vectors: the largest single precision number.\<close>

definition FLT_MAX :: real where
  "FLT_MAX = 340282346638528859811704183484516925440"

text \<open>
  Modelled from the spec: the search of the FAISS flat index is code of the FAISS
  library, which is not among the sources. Following section 4.4 of the specification
  (\<^verbatim>\<open>nearest(queryVector, k)\<close>), every stored vector is compared with the query by
  squared Euclidean distance, the results are in ascending order of distance, and
  of two vectors at the same distance the one with the lower index comes first. As the
  library does, the search asserts a positive \<open>k\<close> and a query of the index's
  dimension, and pads a result shorter than \<open>k\<close> with the index \<open>-1\<close>.
  The result is the pair (distances, indices).
\<close>

definition index_search ::
  "flat_index \<Rightarrow> real list \<Rightarrow> int \<Rightarrow> py_error + real list \<times> int list" where
  "index_search ix q k =
     (if k \<le> 0 \<or> length q \<noteq> ix_dim ix then Inl AssertionError
      else
        let scored = map (\<lambda>i. (l2sqr q (ix_vectors ix ! i), int i)) [0..<length (ix_vectors ix)];
            best = take (nat k) (sort_key fst scored);
            pad = nat k - length best
        in Inr (map fst best @ replicate pad FLT_MAX, map snd best @ replicate pad (- 1)))"

section \<open>Training (\<^verbatim>\<open>_train_sync\<close> and \<^verbatim>\<open>train_model_task\<close>)\<close>

text \<open>Lines 77 to 88 on the registries of lines 67 to 75.\<close>

definition build_interaction_matrix ::
  "transaction list \<Rightarrow> product list \<Rightarrow> py_error + sparse" where
  "build_interaction_matrix ts ps =
     (let unique_users = unique (map user_id ts);
          item_codes = map p_id ps
      in interaction_matrix (build_user_map unique_users) (build_reverse_product_map item_codes)
           (length unique_users, length item_codes) ts)"

text \<open>Line 106: \<^verbatim>\<open>products_df.set_index('_id').to_dict(orient='index')\<close>.\<close>

definition build_product_data :: "product list \<Rightarrow> (string \<rightharpoonup> string)" where
  "build_product_data ps = dict_of (map (\<lambda>p. (p_id p, description p)) ps)"

text \<open>
  \<^verbatim>\<open>_train_sync\<close>, statement by statement. The result is the exception that ended
  the run, if any, and the states of the engine after each assignment to it, in order:
  the attributes of the singleton are assigned one after the other while the method
  runs. A data frame made from an empty list of documents has no columns, so reading
  a column of it raises \<^verbatim>\<open>KeyError\<close> (lines 67 and 73); pandas' \<^verbatim>\<open>to_dict\<close>
  refuses an index with a repeated \<^verbatim>\<open>_id\<close> (line 106). Where the embeddings are
  read (line 101) there is at least one product, so the first embedding exists.
  Writing the three files is taken to succeed.
\<close>

definition train_run ::
  "libs \<Rightarrow> transaction list \<Rightarrow> product list \<Rightarrow> engine \<Rightarrow> py_error option \<times> engine list" where
  "train_run L ts ps s0 =
     (if ts = [] then (Some KeyError, [])
      else
        (let s1 = register_users ts s0 in
         if ps = [] then (Some KeyError, [s1])
         else
           (let s2 = register_items ps s1 in
            (case build_interaction_matrix ts ps of
               Inl e \<Rightarrow> (Some e, [s1, s2])
             | Inr X \<Rightarrow>
                 (let s3 = s2\<lparr> svd_model := Some Unfitted \<rparr> in
                  (case fit_transform L n_components X of
                     Inl e \<Rightarrow> (Some e, [s1, s2, s3])
                   | Inr (factors, components) \<Rightarrow>
                       (let s4 = s3\<lparr> svd_model := Some (Fitted components) \<rparr> in
                        if \<not> sentence_model s4 \<and> \<not> st_available L
                        then (Some OSError, [s1, s2, s3, s4])
                        else
                          (let s5 = s4\<lparr> sentence_model := True \<rparr>;
                               embeddings = map (\<lambda>p. encode L (description p)) ps;
                               dimension = length (hd embeddings);
                               s6 = s5\<lparr> faiss_index := Some (IndexFlatL2 dimension) \<rparr>
                           in (case index_add (IndexFlatL2 dimension) embeddings of
                                 Inl e \<Rightarrow> (Some e, [s1, s2, s3, s4, s5, s6])
                               | Inr ix \<Rightarrow>
                                   (let s7 = s6\<lparr> faiss_index := Some ix \<rparr> in
                                    if \<not> distinct (map p_id ps)
                                    then (Some ValueError, [s1, s2, s3, s4, s5, s6, s7])
                                    else
                                      (let s8 = s7\<lparr> product_data := build_product_data ps \<rparr>;
                                           s9 = s8\<lparr> user_factors := Some factors \<rparr>;
                                           s10 = s9\<lparr> svd_pkl := Stored (Fitted components, factors,
                                                    user_map s9, reverse_user_map s9) \<rparr>;
                                           s11 = s10\<lparr> product_index := Stored ix \<rparr>;
                                           s12 = s11\<lparr> mappings_pkl := Stored (product_map s11,
                                                    reverse_product_map s11, product_data s11) \<rparr>;
                                           s13 = s12\<lparr> initialized := True \<rparr>
                                       in (None, [s1, s2, s3, s4, s5, s6, s7, s8, s9, s10,
                                                  s11, s12, s13]))))))))))))"

text \<open>The method as its caller sees it: the exception, and the engine it leaves.\<close>

definition train_sync ::
  "libs \<Rightarrow> transaction list \<Rightarrow> product list \<Rightarrow> engine \<Rightarrow> py_error option \<times> engine" where
  "train_sync L ts ps s0 =
     (let r = train_run L ts ps s0 in (fst r, last (s0 # snd r)))"

text \<open>
  \<^verbatim>\<open>train_model_task\<close> (train.py) on the two collections it fetches: without any
  transaction it prints "No transactions found. Skipping training." and returns;
  otherwise it trains, and an exception of the training leaves the task.
\<close>

datatype outcome = Skipped | Finished | Raised py_error

definition train_model_task ::
  "libs \<Rightarrow> transaction list \<Rightarrow> product list \<Rightarrow> engine \<Rightarrow> outcome \<times> engine" where
  "train_model_task L transactions products s =
     (if transactions = [] then (Skipped, s)
      else
        (case train_sync L transactions products s of
           (None, s') \<Rightarrow> (Finished, s')
         | (Some e, s') \<Rightarrow> (Raised e, s')))"

section \<open>Serving (\<^verbatim>\<open>load_models\<close>, \<^verbatim>\<open>recommend\<close>, \<^verbatim>\<open>search\<close>)\<close>

text \<open>
  \<^verbatim>\<open>load_models\<close>, lines 24 to 54: the result is the exception that leaves the
  method, if any, and the engine. Opening a missing pickle raises
  \<^verbatim>\<open>FileNotFoundError\<close>, which the method handles by loading the sentence encoder
  only; a pickle that cannot be read and an index file that cannot be read (FAISS
  raises \<^verbatim>\<open>RuntimeError\<close> also for a missing file) leave the method as exceptions,
  and so does a failure to load the encoder.
\<close>

definition load_sentence_model :: "libs \<Rightarrow> engine \<Rightarrow> py_error option \<times> engine" where
  "load_sentence_model L s =
     (if st_available L then (None, s\<lparr> sentence_model := True \<rparr>) else (Some OSError, s))"

definition load_models :: "libs \<Rightarrow> engine \<Rightarrow> py_error option \<times> engine" where
  "load_models L s =
     (case svd_pkl s of
        Missing \<Rightarrow> load_sentence_model L s
      | Corrupt \<Rightarrow> (Some UnpicklingError, s)
      | Stored (model, factors, umap, rumap) \<Rightarrow>
          (let s1 = s\<lparr> svd_model := Some model, user_factors := Some factors,
                       user_map := umap, reverse_user_map := rumap \<rparr>
           in (case product_index s1 of
                 Missing \<Rightarrow> (Some RuntimeError, s1)
               | Corrupt \<Rightarrow> (Some RuntimeError, s1)
               | Stored ix \<Rightarrow>
                   (let s2 = s1\<lparr> faiss_index := Some ix \<rparr>
                    in (case mappings_pkl s2 of
                          Missing \<Rightarrow> load_sentence_model L s2
                        | Corrupt \<Rightarrow> (Some UnpicklingError, s2)
                        | Stored (pmap, rpmap, pdata) \<Rightarrow>
                            (let s3 = s2\<lparr> product_map := pmap, reverse_product_map := rpmap,
                                         product_data := pdata \<rparr>
                             in if st_available L
                                then (None, s3\<lparr> sentence_model := True, initialized := True \<rparr>)
                                else (Some OSError, s3)))))))"

text \<open>A complete artifact is stored in the model directory and the encoder can be
  loaded: the case in which \<^verbatim>\<open>load_models\<close> reaches its last line.\<close>

definition artifact_on_disk :: "libs \<Rightarrow> engine \<Rightarrow> bool" where
  "artifact_on_disk L s =
     ((case svd_pkl s of Stored a \<Rightarrow> True | Missing \<Rightarrow> False | Corrupt \<Rightarrow> False)
      \<and> (case product_index s of Stored b \<Rightarrow> True | Missing \<Rightarrow> False | Corrupt \<Rightarrow> False)
      \<and> (case mappings_pkl s of Stored c \<Rightarrow> True | Missing \<Rightarrow> False | Corrupt \<Rightarrow> False)
      \<and> st_available L)"

text \<open>Lines 133 to 140 and 172 to 179: an engine that is not initialized tries to load
  the models and swallows every exception of the attempt.\<close>

definition ensure_loaded :: "libs \<Rightarrow> engine \<Rightarrow> engine" where
  "ensure_loaded L s = (if initialized s then s else snd (load_models L s))"

text \<open>The inner product of two vectors, and column \<open>j\<close> of a matrix given by its rows.\<close>

definition dot :: "real list \<Rightarrow> real list \<Rightarrow> real" where
  "dot u v = sum_list (map2 (*) u v)"

definition column :: "matrix \<Rightarrow> nat \<Rightarrow> real list" where
  "column M j = map (\<lambda>row. row ! j) M"

definition ncols :: "matrix \<Rightarrow> nat" where
  "ncols M = (case M of [] \<Rightarrow> 0 | row # _ \<Rightarrow> length row)"

text \<open>\<^verbatim>\<open>np.dot\<close> of a vector and a matrix: numpy raises \<^verbatim>\<open>ValueError\<close> unless the
  vector is as long as the matrix has rows.\<close>

definition np_dot :: "real list \<Rightarrow> matrix \<Rightarrow> py_error + real list" where
  "np_dot u M =
     (if length u \<noteq> length M then Inl ValueError
      else Inr (map (\<lambda>j. dot u (column M j)) [0..<ncols M]))"

text \<open>
  \<^verbatim>\<open>np.argsort\<close> (line 157) is called with its default kind, which is not stable:
  numpy promises the indices that sort the scores in ascending order and nothing
  about the order of equal scores. The function itself is the collaborator
  \<open>np_argsort\<close>; \<open>is_argsort\<close> is what numpy promises of its result: each index once,
  and the scores ascending along it.
\<close>

definition is_argsort :: "real list \<Rightarrow> nat list \<Rightarrow> bool" where
  "is_argsort scores perm =
     (length perm = length scores \<and> distinct perm
      \<and> list_all (\<lambda>i. i < length scores) perm
      \<and> sorted (map (\<lambda>i. scores ! i) perm))"

text \<open>The slice \<^verbatim>\<open>xs[:k]\<close>: a negative \<open>k\<close> counts from the end.\<close>

definition py_take :: "int \<Rightarrow> 'a list \<Rightarrow> 'a list" where
  "py_take k xs = (if k \<ge> 0 then take (nat k) xs else take (length xs - nat (- k)) xs)"

text \<open>Line 157: \<^verbatim>\<open>np.argsort(scores)[::-1][:top_k]\<close>.\<close>

definition top_indices :: "libs \<Rightarrow> real list \<Rightarrow> int \<Rightarrow> nat list" where
  "top_indices L scores top_k = py_take top_k (rev (np_argsort L scores))"

text \<open>An entry of the list \<^verbatim>\<open>recommend\<close> returns; \<open>r_name\<close> is \<open>None\<close> when the
  stock code has no metadata.\<close>

record recommendation =
  r_stock_code :: string
  r_score :: real
  r_name :: "string option"

text \<open>Lines 159 to 167: the loop over the top indices. An index without a stock
  code, or with an empty one, is skipped (\<^verbatim>\<open>if stock_code:\<close>).\<close>

fun recommend_loop :: "engine \<Rightarrow> real list \<Rightarrow> nat list \<Rightarrow> recommendation list" where
  "recommend_loop s scores [] = []"
| "recommend_loop s scores (idx # rest) =
     (case product_map s (int idx) of
        None \<Rightarrow> recommend_loop s scores rest
      | Some code \<Rightarrow>
          if code = [] then recommend_loop s scores rest
          else \<lparr> r_stock_code = code, r_score = scores ! idx,
                 r_name = product_data s code \<rparr> # recommend_loop s scores rest)"

text \<open>\<^verbatim>\<open>recommend\<close>, lines 131 to 168: the list it returns or the exception it
  raises, and the engine (which the attempt to load may have changed).\<close>

definition recommend ::
  "libs \<Rightarrow> engine \<Rightarrow> string \<Rightarrow> int \<Rightarrow> (py_error + recommendation list) \<times> engine" where
  "recommend L s0 uid top_k =
     (let s = ensure_loaded L s0 in
      if \<not> initialized s then (Inr [], s)
      else
        (case user_map s uid of
           None \<Rightarrow> (Inr [], s)
         | Some user_idx \<Rightarrow>
          (case user_factors s of
             None \<Rightarrow> (Inr [], s)
           | Some factors \<Rightarrow>
               if length factors \<le> user_idx then (Inl IndexError, s)
               else
                 (case svd_model s of
                    None \<Rightarrow> (Inl AttributeError, s)
                  | Some Unfitted \<Rightarrow> (Inl AttributeError, s)
                  | Some (Fitted item_matrix) \<Rightarrow>
                      (case np_dot (factors ! user_idx) item_matrix of
                         Inl e \<Rightarrow> (Inl e, s)
                       | Inr scores \<Rightarrow>
                           (Inr (recommend_loop s scores (top_indices L scores top_k)), s))))))"

text \<open>An entry of the list \<^verbatim>\<open>search\<close> returns.\<close>

record hit =
  h_stock_code :: string
  h_description :: string
  h_score :: real

text \<open>Lines 187 to 195: the loop over the indices and distances of the index.\<close>

fun search_loop :: "engine \<Rightarrow> (int \<times> real) list \<Rightarrow> hit list" where
  "search_loop s [] = []"
| "search_loop s ((idx, distance) # rest) =
     (case product_map s idx of
        None \<Rightarrow> search_loop s rest
      | Some code \<Rightarrow>
          \<lparr> h_stock_code = code,
            h_description = (case product_data s code of None \<Rightarrow> ''Unknown'' | Some d \<Rightarrow> d),
            h_score = distance \<rparr> # search_loop s rest)"

text \<open>\<^verbatim>\<open>search\<close>, lines 170 to 196.\<close>

definition search ::
  "libs \<Rightarrow> engine \<Rightarrow> string \<Rightarrow> int \<Rightarrow> (py_error + hit list) \<times> engine" where
  "search L s0 query top_k =
     (let s = ensure_loaded L s0 in
      if \<not> initialized s then (Inr [], s)
      else if \<not> sentence_model s then (Inr [], s)
      else
        (case faiss_index s of
           None \<Rightarrow> (Inr [], s)
         | Some ix \<Rightarrow>
             (case index_search ix (encode L query) top_k of
                Inl e \<Rightarrow> (Inl e, s)
              | Inr (distances, indices) \<Rightarrow>
                  (Inr (search_loop s (zip indices distances)), s))))"

section \<open>The training route (\<^verbatim>\<open>routes.py\<close>, lines 27 to 31)\<close>

text \<open>
  The server as far as builds go: the number of \<^verbatim>\<open>train_model_task\<close> runs that
  have been started and have not returned. \<^verbatim>\<open>trigger_training\<close> adds the task to
  the request's background tasks, which the framework starts once the response is
  sent, and answers with its message; it reads nothing of the server's state.
\<close>

record server =
  builds_running :: nat

definition trigger_training :: "server \<Rightarrow> string \<times> server" where
  "trigger_training sv =
     (''Training started in background.'', sv\<lparr> builds_running := Suc (builds_running sv) \<rparr>)"

text \<open>A background task returns (where none is running there is nothing to return).\<close>

definition build_returns :: "server \<Rightarrow> server" where
  "build_returns sv = sv\<lparr> builds_running := builds_running sv - 1 \<rparr>"

text \<open>What the server goes through: a request to the training route arrives, or a
  running background task returns. \<open>serve\<close> runs a sequence of such events and collects
  the answers of the route.\<close>

datatype event = Trigger | Returns

fun serve :: "event list \<Rightarrow> server \<Rightarrow> string list \<times> server" where
  "serve [] sv = ([], sv)"
| "serve (Trigger # evs) sv =
     (let (msg, sv') = trigger_training sv;
          (msgs, sv'') = serve evs sv'
      in (msg # msgs, sv''))"
| "serve (Returns # evs) sv = serve evs (build_returns sv)"

section \<open>Example data\<close>

text \<open>Three products and a few transactions of two customers: one of them is a
  return, and the last names a stock code that is not a product.\<close>

definition example_products :: "product list" where
  "example_products =
     [\<lparr>p_id = ''A'', description = ''alpha''\<rparr>,
      \<lparr>p_id = ''B'', description = ''beta''\<rparr>,
      \<lparr>p_id = ''C'', description = ''gamma''\<rparr>]"

definition example_transactions :: "transaction list" where
  "example_transactions =
     [\<lparr>user_id = ''u1'', stock_code = ''A'', quantity = 2\<rparr>,
      \<lparr>user_id = ''u2'', stock_code = ''B'', quantity = 1\<rparr>,
      \<lparr>user_id = ''u1'', stock_code = ''A'', quantity = 3\<rparr>,
      \<lparr>user_id = ''u1'', stock_code = ''B'', quantity = - 4\<rparr>,
      \<lparr>user_id = ''u2'', stock_code = ''Z'', quantity = 5\<rparr>]"

text \<open>
  The artifact of the specification's test section: user factors \<open>u1 = [1, 0]\<close> and
  \<open>u2 = [0, 1]\<close>, item factors (as columns) \<open>A = [2, 0]\<close>, \<open>B = [0, 3]\<close>,
  \<open>C = [1, 1]\<close>, and item vectors \<open>A = (0, 0)\<close>, \<open>B = (1, 0)\<close>, \<open>C = (5, 5)\<close>.
\<close>

definition example_engine :: engine where
  "example_engine =
     \<lparr> svd_model = Some (Fitted [[2, 0, 1], [0, 3, 1]]),
       sentence_model = True,
       faiss_index = Some \<lparr> ix_dim = 2, ix_vectors = [[0, 0], [1, 0], [5, 5]] \<rparr>,
       product_map = build_product_map [''A'', ''B'', ''C''],
       reverse_product_map = build_reverse_product_map [''A'', ''B'', ''C''],
       product_data = build_product_data example_products,
       user_map = build_user_map [''u1'', ''u2''],
       reverse_user_map = build_reverse_user_map [''u1'', ''u2''],
       initialized = True,
       user_factors = Some [[1, 0], [0, 1]],
       svd_pkl = Missing, product_index = Missing, mappings_pkl = Missing \<rparr>"

text \<open>The same artifact with item factors \<open>A = [1, 0]\<close>, \<open>B = [1, 3]\<close>, \<open>C = [0, 1]\<close>:
  for the user \<open>u1\<close> the items \<open>A\<close> and \<open>B\<close> have the same score.\<close>

definition tie_engine :: engine where
  "tie_engine = example_engine\<lparr> svd_model := Some (Fitted [[1, 1, 0], [0, 3, 1]]) \<rparr>"

text \<open>Fifty products with distinct stock codes; a snapshot whose only transaction is a
  return; and a later snapshot in which the customer \<open>u2\<close> comes first.\<close>

definition many_products :: "product list" where
  "many_products =
     map (\<lambda>i. \<lparr>p_id = replicate (Suc i) (CHR ''x''), description = ''item''\<rparr>) [0..<50]"

definition returns_only :: "transaction list" where
  "returns_only = [\<lparr>user_id = ''u9'', stock_code = ''A'', quantity = - 1\<rparr>]"

definition later_transactions :: "transaction list" where
  "later_transactions =
     [\<lparr>user_id = ''u2'', stock_code = ''A'', quantity = 1\<rparr>,
      \<lparr>user_id = ''u1'', stock_code = ''B'', quantity = 1\<rparr>]"

text \<open>One function with the contract of \<^verbatim>\<open>np.argsort\<close>: an insertion sort of the
  indices by score, which leaves equal scores in index order.\<close>

definition insertion_argsort :: "real list \<Rightarrow> nat list" where
  "insertion_argsort scores = map snd (sort_key fst (zip scores [0..<length scores]))"

text \<open>Collaborators for the examples: a decomposition that returns factors filled with
  zeros, of the requested rank or of the smaller side of the matrix if that is less,
  an encoder that sends every text to \<open>(0.1, 0.1)\<close>, and the insertion sort for
  \<^verbatim>\<open>argsort\<close>.\<close>

definition example_libs :: libs where
  "example_libs =
     \<lparr> svd_solver = (\<lambda>k X.
         let r = min k (min (fst (shape X)) (snd (shape X)))
         in (replicate (fst (shape X)) (replicate r 0),
             replicate r (replicate (snd (shape X)) 0))),
       encode = (\<lambda>q. [1 / 10, 1 / 10]),
       st_available = True,
       np_argsort = insertion_argsort \<rparr>"

section \<open>The identifier registry is a bijection\<close>

lemma dict_of_distinct: "distinct (map fst kvs) \<Longrightarrow> dict_of kvs = map_of kvs"
  unfolding dict_of_def
  by (subst map_of_inject_set) (simp_all add: rev_map [symmetric])

lemma map_of_zip_Some_iff:
  assumes "distinct ks" and "length ks = length vs"
  shows "map_of (zip ks vs) k = Some v \<longleftrightarrow> (\<exists>i<length ks. ks ! i = k \<and> vs ! i = v)"
proof
  assume "map_of (zip ks vs) k = Some v"
  then have "(k, v) \<in> set (zip ks vs)" by (rule map_of_SomeD)
  then show "\<exists>i<length ks. ks ! i = k \<and> vs ! i = v"
    using assms(2) by (auto simp: in_set_zip)
next
  assume "\<exists>i<length ks. ks ! i = k \<and> vs ! i = v"
  then obtain i where "i < length ks" "ks ! i = k" "vs ! i = v" by blast
  then show "map_of (zip ks vs) k = Some v"
    using map_of_zip_nth [OF assms(2) assms(1), of i] assms(2) by simp
qed

lemma enumerate_swap:
  "map (\<lambda>(i, x). (f x, g i)) (enumerate 0 xs) = zip (map f xs) (map g [0..<length xs])"
  unfolding enumerate_eq_zip
  by (rule nth_equalityI) simp_all

lemma enumerate_swap2:
  "map (\<lambda>(i, x). (g i, f x)) (enumerate 0 xs) = zip (map g [0..<length xs]) (map f xs)"
  unfolding enumerate_eq_zip
  by (rule nth_equalityI) simp_all

lemma build_reverse_user_map_eq:
  "build_reverse_user_map xs i = (if i < length xs then Some (xs ! i) else None)"
proof -
  have eq: "build_reverse_user_map xs = map_of (zip [0..<length xs] xs)"
    unfolding build_reverse_user_map_def
    by (subst dict_of_distinct) (simp_all add: enumerate_eq_zip)
  show ?thesis
  proof (cases "i < length xs")
    case True
    then show ?thesis
      using map_of_zip_nth [of "[0..<length xs]" xs i] by (simp add: eq)
  next
    case False
    then show ?thesis
      by (simp add: eq map_of_zip_is_None)
  qed
qed

lemma build_product_map_eq:
  "build_product_map xs k =
     (if 0 \<le> k \<and> k < int (length xs) then Some (xs ! nat k) else None)"
proof -
  have eq: "build_product_map xs = map_of (zip (map int [0..<length xs]) xs)"
    unfolding build_product_map_def
    using enumerate_swap2 [of int "\<lambda>x. x" xs]
    by (simp add: dict_of_distinct distinct_map inj_on_def)
  show ?thesis
  proof (cases "0 \<le> k \<and> k < int (length xs)")
    case True
    then have "nat k < length xs" by linarith
    then show ?thesis
      using map_of_zip_nth [of "map int [0..<length xs]" xs "nat k"] True
      by (simp add: eq distinct_map inj_on_def)
  next
    case False
    then have "k \<notin> set (map int [0..<length xs])" by auto
    then have "map_of (zip (map int [0..<length xs]) xs) k = None"
      by (simp add: map_of_zip_is_None)
    then show ?thesis
      using False by (simp only: eq if_False)
  qed
qed

lemma build_user_map_distinct:
  assumes "distinct xs"
  shows "build_user_map xs x = Some i \<longleftrightarrow> i < length xs \<and> xs ! i = x"
proof -
  have "build_user_map xs = map_of (zip xs [0..<length xs])"
    unfolding build_user_map_def
    using enumerate_swap [of "\<lambda>x. x" "\<lambda>i. i" xs] assms
    by (simp add: dict_of_distinct)
  then show ?thesis
    using map_of_zip_Some_iff [of xs "[0..<length xs]" x i] assms by auto
qed

lemma distinct_unique: "distinct (unique xs)"
  by (simp add: unique_def)

lemma set_unique: "set (unique xs) = set xs"
  by (simp add: unique_def)

lemma build_reverse_product_map_distinct:
  assumes "distinct xs"
  shows "build_reverse_product_map xs x = Some i \<longleftrightarrow> i < length xs \<and> xs ! i = x"
  using build_user_map_distinct [OF assms]
  by (simp add: build_user_map_def build_reverse_product_map_def)

lemma registry_users:
  assumes "distinct us"
  shows "(\<forall>uid \<in> set us. \<exists>i. build_user_map us uid = Some i
              \<and> build_reverse_user_map us i = Some uid)"
    and "(\<forall>i uid. build_reverse_user_map us i = Some uid \<longrightarrow> build_user_map us uid = Some i)"
    and "(\<forall>a b i. build_user_map us a = Some i \<and> build_user_map us b = Some i \<longrightarrow> a = b)"
    and "dom (build_reverse_user_map us) = {0..<length us}"
    and "ran (build_user_map us) = {0..<length us}"
    and "dom (build_user_map us) = set us"
proof -
  note um = build_user_map_distinct [OF assms]
  show "\<forall>uid \<in> set us. \<exists>i. build_user_map us uid = Some i
              \<and> build_reverse_user_map us i = Some uid"
  proof
    fix uid assume "uid \<in> set us"
    then obtain i where "i < length us" "us ! i = uid"
      by (auto simp: in_set_conv_nth)
    then have "build_user_map us uid = Some i \<and> build_reverse_user_map us i = Some uid"
      by (simp add: um build_reverse_user_map_eq)
    then show "\<exists>i. build_user_map us uid = Some i \<and> build_reverse_user_map us i = Some uid" ..
  qed
  show "\<forall>i uid. build_reverse_user_map us i = Some uid \<longrightarrow> build_user_map us uid = Some i"
    by (simp add: um build_reverse_user_map_eq split: if_splits)
  show "\<forall>a b i. build_user_map us a = Some i \<and> build_user_map us b = Some i \<longrightarrow> a = b"
    by (simp add: um) blast
  show "dom (build_reverse_user_map us) = {0..<length us}"
    by (rule set_eqI) (simp add: dom_def build_reverse_user_map_eq)
  show "ran (build_user_map us) = {0..<length us}"
    by (rule set_eqI) (simp add: ran_def um)
  show "dom (build_user_map us) = set us"
    by (rule set_eqI) (simp add: dom_def um in_set_conv_nth)
qed

lemma registry_items:
  assumes "distinct cs"
  shows "(\<forall>code \<in> set cs. \<exists>i. build_reverse_product_map cs code = Some i
              \<and> build_product_map cs (int i) = Some code)"
    and "(\<forall>k code. build_product_map cs k = Some code \<longrightarrow>
              (\<exists>i. k = int i \<and> build_reverse_product_map cs code = Some i))"
    and "(\<forall>a b i. build_reverse_product_map cs a = Some i
              \<and> build_reverse_product_map cs b = Some i \<longrightarrow> a = b)"
    and "dom (build_product_map cs) = int ` {0..<length cs}"
    and "ran (build_reverse_product_map cs) = {0..<length cs}"
    and "dom (build_reverse_product_map cs) = set cs"
proof -
  note rm = build_reverse_product_map_distinct [OF assms]
  show "\<forall>code \<in> set cs. \<exists>i. build_reverse_product_map cs code = Some i
              \<and> build_product_map cs (int i) = Some code"
  proof
    fix code assume "code \<in> set cs"
    then obtain i where "i < length cs" "cs ! i = code"
      by (auto simp: in_set_conv_nth)
    then have "build_reverse_product_map cs code = Some i
        \<and> build_product_map cs (int i) = Some code"
      by (simp add: rm build_product_map_eq)
    then show "\<exists>i. build_reverse_product_map cs code = Some i
        \<and> build_product_map cs (int i) = Some code" ..
  qed
  show "\<forall>k code. build_product_map cs k = Some code \<longrightarrow>
              (\<exists>i. k = int i \<and> build_reverse_product_map cs code = Some i)"
  proof (intro allI impI)
    fix k code assume "build_product_map cs k = Some code"
    then have k: "0 \<le> k \<and> nat k < length cs \<and> cs ! nat k = code"
      by (simp add: build_product_map_eq split: if_splits)
    then have "k = int (nat k) \<and> build_reverse_product_map cs code = Some (nat k)"
      by (simp add: rm)
    then show "\<exists>i. k = int i \<and> build_reverse_product_map cs code = Some i" ..
  qed
  show "\<forall>a b i. build_reverse_product_map cs a = Some i
              \<and> build_reverse_product_map cs b = Some i \<longrightarrow> a = b"
    by (simp add: rm) blast
  show "dom (build_product_map cs) = int ` {0..<length cs}"
  proof (rule set_eqI)
    fix k show "k \<in> dom (build_product_map cs) \<longleftrightarrow> k \<in> int ` {0..<length cs}"
    proof
      assume "k \<in> dom (build_product_map cs)"
      then have "0 \<le> k \<and> nat k < length cs"
        by (simp add: dom_def build_product_map_eq split: if_splits)
      then have "k = int (nat k)" "nat k \<in> {0..<length cs}" by simp_all
      then show "k \<in> int ` {0..<length cs}" by (rule image_eqI)
    next
      assume "k \<in> int ` {0..<length cs}"
      then obtain i where "k = int i" "i < length cs" by auto
      then show "k \<in> dom (build_product_map cs)"
        by (simp add: dom_def build_product_map_eq)
    qed
  qed
  show "ran (build_reverse_product_map cs) = {0..<length cs}"
    by (rule set_eqI) (simp add: ran_def rm)
  show "dom (build_reverse_product_map cs) = set cs"
    by (rule set_eqI) (simp add: dom_def rm in_set_conv_nth)
qed

text \<open>
  Claim C6. The identifier mappings a training run builds are bijections. For the
  users of the transactions and for the products, whose \<^verbatim>\<open>_id\<close>s are distinct (the
  key of the collection): looking an identifier up and its index back gives the
  identifier, looking an index up and its identifier back gives the index, no two
  identifiers share an index, and the indices are exactly \<open>0..<N\<close>.
\<close>

theorem registry_bijective:
  assumes "distinct (map p_id ps)"
  shows "let s' = register_items ps (register_users ts s);
             nU = length (unique (map user_id ts));
             nI = length ps
         in (\<forall>uid \<in> set (map user_id ts).
               \<exists>i. user_map s' uid = Some i \<and> reverse_user_map s' i = Some uid)
          \<and> (\<forall>i uid. reverse_user_map s' i = Some uid \<longrightarrow> user_map s' uid = Some i)
          \<and> (\<forall>a b i. user_map s' a = Some i \<and> user_map s' b = Some i \<longrightarrow> a = b)
          \<and> dom (reverse_user_map s') = {0..<nU}
          \<and> ran (user_map s') = {0..<nU}
          \<and> (\<forall>code \<in> set (map p_id ps).
               \<exists>i. reverse_product_map s' code = Some i \<and> product_map s' (int i) = Some code)
          \<and> (\<forall>k code. product_map s' k = Some code \<longrightarrow>
               (\<exists>i. k = int i \<and> reverse_product_map s' code = Some i))
          \<and> (\<forall>a b i. reverse_product_map s' a = Some i
               \<and> reverse_product_map s' b = Some i \<longrightarrow> a = b)
          \<and> dom (product_map s') = int ` {0..<nI}
          \<and> ran (reverse_product_map s') = {0..<nI}"
proof -
  let ?us = "unique (map user_id ts)" and ?cs = "map p_id ps"
  have du: "distinct ?us" by (rule distinct_unique)
  have su: "set ?us = set (map user_id ts)" by (rule set_unique)
  note U = registry_users [OF du] and I = registry_items [OF assms]
  have f: "user_map (register_items ps (register_users ts s)) = build_user_map ?us"
     "reverse_user_map (register_items ps (register_users ts s)) = build_reverse_user_map ?us"
     "product_map (register_items ps (register_users ts s)) = build_product_map ?cs"
     "reverse_product_map (register_items ps (register_users ts s)) = build_reverse_product_map ?cs"
    by (simp_all add: register_items_def register_users_def Let_def)
  show ?thesis
    unfolding Let_def f
    using U(1)[unfolded su] U(2,3,4,5) I(1,2,3,4,5) by (simp only: length_map)
qed

theorem registry_bijective_witness:
  "distinct (map p_id example_products)
   \<and> dom (reverse_user_map
            (register_items example_products (register_users example_transactions init_engine)))
       = {0..<2}
   \<and> dom (product_map
            (register_items example_products (register_users example_transactions init_engine)))
       = int ` {0..<3}"
proof -
  have d: "distinct (map p_id example_products)"
    by (simp add: example_products_def)
  have n: "length (unique (map user_id example_transactions)) = 2"
    by (simp add: example_transactions_def unique_def)
  have m: "length example_products = 3"
    by (simp add: example_products_def)
  note T = registry_bijective [OF d, of example_transactions init_engine, unfolded Let_def n m]
  from T have a: "dom (reverse_user_map
            (register_items example_products (register_users example_transactions init_engine)))
       = {0..<2}"
    by (elim conjE)
  from T have b: "dom (product_map
            (register_items example_products (register_users example_transactions init_engine)))
       = int ` {0..<3}"
    by (elim conjE)
  from d a b show ?thesis by (intro conjI)
qed

section \<open>The interaction matrix\<close>

lemma mask_select_map:
  "mask_select (map p xs) (map h xs) = map h (filter p xs)"
  by (induction xs) (simp_all add: mask_select_def)

lemma map2_same: "map2 f (map a xs) (map b xs) = map (\<lambda>x. f (a x) (b x)) xs"
  by (induction xs) simp_all

lemma zip3_same:
  "zip (map a xs) (zip (map b xs) (map c xs)) = map (\<lambda>x. (a x, b x, c x)) xs"
  by (induction xs) simp_all

lemma dict_of_SomeD: "dict_of kvs k = Some v \<Longrightarrow> (k, v) \<in> set kvs"
  unfolding dict_of_def by (drule map_of_SomeD) simp

lemma build_reverse_product_map_bound:
  "build_reverse_product_map cs c = Some i \<Longrightarrow> i < length cs"
  unfolding build_reverse_product_map_def
  by (drule dict_of_SomeD) (auto simp: enumerate_eq_zip in_set_zip)

lemma build_user_map_bound:
  "build_user_map us u = Some i \<Longrightarrow> i < length us"
  unfolding build_user_map_def
  by (drule dict_of_SomeD) (auto simp: enumerate_eq_zip in_set_zip)

lemma interaction_matrix_entries:
  assumes ub: "\<And>u i. umap u = Some i \<Longrightarrow> i < fst shp"
      and ib: "\<And>c i. rpmap c = Some i \<Longrightarrow> i < snd shp"
  shows "interaction_matrix umap rpmap shp ts =
     Inr \<lparr> shape = shp,
           entries = map (\<lambda>t. (the (umap (user_id t)), the (rpmap (stock_code t)),
                              if quantity t > 0 then log1p (real_of_int (quantity t)) else 0))
                       (filter (\<lambda>t. rpmap (stock_code t) \<noteq> None \<and> umap (user_id t) \<noteq> None) ts) \<rparr>"
proof -
  let ?ts = "filter (\<lambda>t. rpmap (stock_code t) \<noteq> None) ts"
  let ?ui = "\<lambda>t. case umap (user_id t) of Some i \<Rightarrow> int i | None \<Rightarrow> - 1"
  let ?ii = "\<lambda>t. case rpmap (stock_code t) of Some i \<Rightarrow> int i | None \<Rightarrow> - 1"
  let ?w = "\<lambda>t. if quantity t > 0 then log1p (real_of_int (quantity t)) else 0"
  let ?v = "\<lambda>t. ?ui t \<ge> 0 \<and> ?ii t \<ge> 0"
  let ?kept = "filter ?v ?ts"
  have kept: "?kept = filter (\<lambda>t. rpmap (stock_code t) \<noteq> None \<and> umap (user_id t) \<noteq> None) ts"
    by (auto simp: filter_filter intro!: filter_cong split: option.splits)
  have rows_ok: "\<not> list_ex (\<lambda>r. r < 0 \<or> int (fst shp) \<le> r) (map ?ui ?kept)"
    by (auto simp: list_ex_iff split: option.splits dest: ub)
  have cols_ok: "\<not> list_ex (\<lambda>c. c < 0 \<or> int (snd shp) \<le> c) (map ?ii ?kept)"
    by (auto simp: list_ex_iff split: option.splits dest: ib)
  have ent: "zip (map nat (map ?ui ?kept)) (zip (map nat (map ?ii ?kept)) (map ?w ?kept))
      = map (\<lambda>t. (the (umap (user_id t)), the (rpmap (stock_code t)), ?w t)) ?kept"
    unfolding map_map zip3_same
    by (rule map_cong) (auto split: option.splits)
  have "interaction_matrix umap rpmap shp ts =
      csr_matrix (map ?w ?kept) (map ?ui ?kept, map ?ii ?kept) shp"
    unfolding interaction_matrix_def Let_def map2_same mask_select_map ..
  also have "\<dots> = Inr \<lparr> shape = shp,
      entries = map (\<lambda>t. (the (umap (user_id t)), the (rpmap (stock_code t)), ?w t)) ?kept \<rparr>"
    unfolding csr_matrix_def Let_def fst_conv snd_conv
    using rows_ok cols_ok ent by simp
  finally show ?thesis unfolding kept .
qed

lemma log1p_pos: "0 < q \<Longrightarrow> 0 < log1p (real_of_int q)"
  by (simp add: log1p_def)

lemma cell_of_entries:
  "cell \<lparr> shape = shp, entries = map (\<lambda>t. (a t, b t, w t)) (filter P ts) \<rparr> u i
     = (\<Sum>t\<leftarrow>ts. if P t \<and> a t = u \<and> b t = i then w t else 0)"
  by (induction ts) (simp_all add: cell_def)

lemma interaction_matrix_cell:
  assumes ub: "\<And>u i. umap u = Some i \<Longrightarrow> i < fst shp"
      and ib: "\<And>c i. rpmap c = Some i \<Longrightarrow> i < snd shp"
  shows "\<exists>X. interaction_matrix umap rpmap shp ts = Inr X \<and> shape X = shp
     \<and> (\<forall>u i. cell X u i =
           (\<Sum>t\<leftarrow>ts. if 0 < quantity t \<and> umap (user_id t) = Some u
                        \<and> rpmap (stock_code t) = Some i
                     then log1p (real_of_int (quantity t)) else 0))"
proof -
  let ?P = "\<lambda>t. rpmap (stock_code t) \<noteq> None \<and> umap (user_id t) \<noteq> None"
  let ?w = "\<lambda>t. if quantity t > 0 then log1p (real_of_int (quantity t)) else 0"
  let ?X = "\<lparr> shape = shp,
           entries = map (\<lambda>t. (the (umap (user_id t)), the (rpmap (stock_code t)), ?w t))
                       (filter ?P ts) \<rparr>"
  have X: "interaction_matrix umap rpmap shp ts = Inr ?X"
    by (rule interaction_matrix_entries [OF ub ib])
  have c: "cell ?X u i =
           (\<Sum>t\<leftarrow>ts. if 0 < quantity t \<and> umap (user_id t) = Some u
                        \<and> rpmap (stock_code t) = Some i
                     then log1p (real_of_int (quantity t)) else 0)" for u i
    unfolding cell_of_entries
    by (rule arg_cong [where f = sum_list], rule map_cong) auto
  show ?thesis
    using X c by (intro exI [of _ ?X]) simp
qed

lemma build_interaction_matrix_cell:
  "\<exists>X. build_interaction_matrix ts ps = Inr X
     \<and> shape X = (length (unique (map user_id ts)), length ps)
     \<and> (\<forall>u i. cell X u i =
           (\<Sum>t\<leftarrow>ts. if 0 < quantity t
                        \<and> build_user_map (unique (map user_id ts)) (user_id t) = Some u
                        \<and> build_reverse_product_map (map p_id ps) (stock_code t) = Some i
                     then log1p (real_of_int (quantity t)) else 0))"
proof -
  have "\<exists>X. interaction_matrix (build_user_map (unique (map user_id ts)))
            (build_reverse_product_map (map p_id ps))
            (length (unique (map user_id ts)), length (map p_id ps)) ts = Inr X
     \<and> shape X = (length (unique (map user_id ts)), length (map p_id ps))
     \<and> (\<forall>u i. cell X u i =
           (\<Sum>t\<leftarrow>ts. if 0 < quantity t
                        \<and> build_user_map (unique (map user_id ts)) (user_id t) = Some u
                        \<and> build_reverse_product_map (map p_id ps) (stock_code t) = Some i
                     then log1p (real_of_int (quantity t)) else 0))"
    by (rule interaction_matrix_cell)
       (simp_all add: build_user_map_bound build_reverse_product_map_bound del: length_map)
  then show ?thesis
    by (simp add: build_interaction_matrix_def Let_def)
qed

lemma sum_list_nonzero:
  "(\<Sum>t\<leftarrow>ts. if P t then f t else (0::real)) \<noteq> 0 \<Longrightarrow> \<exists>t\<in>set ts. P t"
  by (induction ts) (auto split: if_splits)

text \<open>
  Claim C4. The interaction matrix of a training run exists, has one row per user and
  one column per product, and each cell is the sum of \<open>log1p (quantity)\<close> over the
  transactions of that user and product with a positive quantity: a transaction with
  a quantity of zero or less adds nothing, one whose stock code is not registered
  reaches no cell, and repeated pairs are added up. Hence a cell that is not zero has
  a transaction with a positive quantity for its user and product.
\<close>

theorem interaction_matrix_aggregates:
  "\<exists>X. build_interaction_matrix ts ps = Inr X
     \<and> shape X = (length (unique (map user_id ts)), length ps)
     \<and> (\<forall>u i. cell X u i =
           (\<Sum>t\<leftarrow>ts. if 0 < quantity t
                        \<and> build_user_map (unique (map user_id ts)) (user_id t) = Some u
                        \<and> build_reverse_product_map (map p_id ps) (stock_code t) = Some i
                     then log1p (real_of_int (quantity t)) else 0))
     \<and> (\<forall>u i. cell X u i \<noteq> 0 \<longrightarrow>
           (\<exists>t\<in>set ts. 0 < quantity t
                        \<and> build_user_map (unique (map user_id ts)) (user_id t) = Some u
                        \<and> build_reverse_product_map (map p_id ps) (stock_code t) = Some i))"
proof -
  let ?um = "build_user_map (unique (map user_id ts))"
  let ?rm = "build_reverse_product_map (map p_id ps)"
  obtain X where X: "build_interaction_matrix ts ps = Inr X"
      "shape X = (length (unique (map user_id ts)), length ps)"
    and c: "\<And>u i. cell X u i =
           (\<Sum>t\<leftarrow>ts. if 0 < quantity t \<and> ?um (user_id t) = Some u \<and> ?rm (stock_code t) = Some i
                     then log1p (real_of_int (quantity t)) else 0)"
    using build_interaction_matrix_cell [of ts ps] by blast
  have nz: "\<exists>t\<in>set ts. 0 < quantity t \<and> ?um (user_id t) = Some u \<and> ?rm (stock_code t) = Some i"
    if "cell X u i \<noteq> 0" for u i
    using that unfolding c by (rule sum_list_nonzero)
  show ?thesis
    using X c nz by (intro exI [of _ X]) simp
qed

lemma example_user_map:
  "build_user_map (unique (map user_id example_transactions)) =
     [''u1'' \<mapsto> 0, ''u2'' \<mapsto> 1]"
  by (rule ext) (simp add: example_transactions_def unique_def build_user_map_def dict_of_def)

lemma example_reverse_product_map:
  "build_reverse_product_map (map p_id example_products) =
     [''A'' \<mapsto> 0, ''B'' \<mapsto> 1, ''C'' \<mapsto> 2]"
  by (rule ext) (simp add: example_products_def build_reverse_product_map_def dict_of_def)

theorem interaction_matrix_aggregates_witness:
  "\<exists>X. build_interaction_matrix example_transactions example_products = Inr X
     \<and> shape X = (2, 3)
     \<and> cell X 0 0 = log1p 2 + log1p 3
     \<and> cell X 0 1 = 0
     \<and> cell X 1 1 = log1p 1
     \<and> cell X 1 2 = 0"
proof -
  from interaction_matrix_aggregates [of example_transactions example_products]
  obtain X where X: "build_interaction_matrix example_transactions example_products = Inr X"
    and s: "shape X = (length (unique (map user_id example_transactions)), length example_products)"
    and c: "\<And>u i. cell X u i =
           (\<Sum>t\<leftarrow>example_transactions. if 0 < quantity t
                \<and> build_user_map (unique (map user_id example_transactions)) (user_id t) = Some u
                \<and> build_reverse_product_map (map p_id example_products) (stock_code t) = Some i
              then log1p (real_of_int (quantity t)) else 0)"
    by blast
  have s': "shape X = (2, 3)"
    unfolding s by (simp add: example_transactions_def example_products_def unique_def)
  have "cell X 0 0 = log1p 2 + log1p 3" "cell X 0 1 = 0" "cell X 1 1 = log1p 1" "cell X 1 2 = 0"
    unfolding c example_user_map example_reverse_product_map
    by (simp_all add: example_transactions_def)
  with X s' show ?thesis by blast
qed

section \<open>Ranking of recommendations\<close>

lemma insort_key_lex:
  fixes x :: "'a::linorder \<times> 'b::order"
  assumes "sorted_wrt (\<lambda>a b. fst a < fst b \<or> (fst a = fst b \<and> snd a < snd b)) ys"
      and "\<forall>y\<in>set ys. snd x < snd y"
  shows "sorted_wrt (\<lambda>a b. fst a < fst b \<or> (fst a = fst b \<and> snd a < snd b))
           (insort_key fst x ys)"
  using assms
proof (induction ys)
  case Nil
  then show ?case by simp
next
  case (Cons y ys)
  show ?case
  proof (cases "fst x \<le> fst y")
    case True
    have "fst x < fst z \<or> (fst x = fst z \<and> snd x < snd z)" if "z \<in> set (y # ys)" for z
    proof -
      have "fst y \<le> fst z" using that Cons.prems(1) by auto
      moreover have "snd x < snd z" using that Cons.prems(2) by auto
      ultimately show ?thesis using True by auto
    qed
    then show ?thesis using True Cons.prems(1) by simp
  next
    case False
    have "sorted_wrt (\<lambda>a b. fst a < fst b \<or> (fst a = fst b \<and> snd a < snd b))
           (insort_key fst x ys)"
      using Cons by simp
    then show ?thesis using False Cons.prems(1) by (auto simp: set_insort_key)
  qed
qed

lemma sort_key_lex:
  fixes l :: "('a::linorder \<times> 'b::order) list"
  assumes "sorted_wrt (\<lambda>a b. snd a < snd b) l"
  shows "sorted_wrt (\<lambda>a b. fst a < fst b \<or> (fst a = fst b \<and> snd a < snd b)) (sort_key fst l)"
  using assms
proof (induction l)
  case Nil
  then show ?case by simp
next
  case (Cons x l)
  then show ?case by (simp add: insort_key_lex)
qed

lemma zip_upt_eq: "zip xs [0..<length xs] = map (\<lambda>i. (xs ! i, i)) [0..<length xs]"
  by (rule nth_equalityI) simp_all

lemma insertion_argsort_is_argsort: "is_argsort scores (insertion_argsort scores)"
proof -
  let ?l = "zip scores [0..<length scores]"
  have e: "fst p = scores ! snd p" if "p \<in> set (sort_key fst ?l)" for p
    using that unfolding zip_upt_eq by auto
  have "sorted (map fst (sort_key fst ?l))"
    by (rule sorted_sort_key)
  moreover have "map fst (sort_key fst ?l) = map (\<lambda>i. scores ! i) (insertion_argsort scores)"
    unfolding insertion_argsort_def map_map
    by (rule map_cong) (simp_all add: e)
  ultimately have srt: "sorted (map (\<lambda>i. scores ! i) (insertion_argsort scores))"
    by simp
  have st: "set (insertion_argsort scores) = {0..<length scores}"
    unfolding insertion_argsort_def zip_upt_eq by (simp add: image_image)
  have "distinct (map snd ?l)" by simp
  then have "distinct (map snd (sort_key fst ?l))"
    by (metis distinct_map distinct_sort inj_on_cong set_sort)
  then have d: "distinct (insertion_argsort scores)"
    by (simp add: insertion_argsort_def)
  have len: "length (insertion_argsort scores) = length scores"
    by (simp add: insertion_argsort_def)
  show ?thesis
    unfolding is_argsort_def list_all_iff
    using len d st srt by simp
qed

lemma is_argsort_set:
  assumes "is_argsort scores perm"
  shows "set perm = {0..<length scores}"
proof -
  from assms have l: "length perm = length scores" and d: "distinct perm"
    and b: "set perm \<subseteq> {0..<length scores}"
    by (auto simp: is_argsort_def list_all_iff)
  have "card (set perm) = card {0..<length scores}"
    using d l by (simp add: distinct_card)
  with b show ?thesis
    by (intro card_subset_eq) simp_all
qed

lemma sorted_wrt_take_drop:
  "sorted_wrt R xs \<Longrightarrow> a \<in> set (take n xs) \<Longrightarrow> b \<in> set (drop n xs) \<Longrightarrow> R a b"
  using sorted_wrt_append [of R "take n xs" "drop n xs"] by simp

lemma top_indices_best:
  assumes "is_argsort scores (np_argsort L scores)" and "0 \<le> k"
  shows "length (top_indices L scores k) = min (nat k) (length scores)"
    and "distinct (top_indices L scores k)"
    and "\<forall>i\<in>set (top_indices L scores k). i < length scores"
    and "sorted_wrt (\<lambda>i j. scores ! j \<le> scores ! i) (top_indices L scores k)"
    and "\<forall>j<length scores. j \<notin> set (top_indices L scores k) \<longrightarrow>
           (\<forall>i\<in>set (top_indices L scores k). scores ! j \<le> scores ! i)"
proof -
  let ?perm = "np_argsort L scores"
  let ?top = "take (nat k) (rev ?perm)"
  have t: "top_indices L scores k = ?top"
    using assms(2) by (simp add: top_indices_def py_take_def)
  from assms(1) have l: "length ?perm = length scores" and d: "distinct ?perm"
    and s: "sorted (map (\<lambda>i. scores ! i) ?perm)"
    by (auto simp: is_argsort_def)
  have st: "set ?perm = {0..<length scores}"
    using assms(1) by (rule is_argsort_set)
  have "sorted_wrt (\<lambda>i j. scores ! i \<le> scores ! j) ?perm"
    using s by (simp add: sorted_map)
  then have r: "sorted_wrt (\<lambda>i j. scores ! j \<le> scores ! i) (rev ?perm)"
    by (simp add: sorted_wrt_rev)
  show "length (top_indices L scores k) = min (nat k) (length scores)"
    unfolding t using l by simp
  show "distinct (top_indices L scores k)"
    unfolding t using d by simp
  have sub: "set ?top \<subseteq> {0..<length scores}"
    using set_take_subset [of "nat k" "rev ?perm"] st by simp
  then show "\<forall>i\<in>set (top_indices L scores k). i < length scores"
    unfolding t by auto
  show "sorted_wrt (\<lambda>i j. scores ! j \<le> scores ! i) (top_indices L scores k)"
    unfolding t using r by (rule sorted_wrt_take)
  show "\<forall>j<length scores. j \<notin> set (top_indices L scores k) \<longrightarrow>
           (\<forall>i\<in>set (top_indices L scores k). scores ! j \<le> scores ! i)"
    unfolding t
  proof (intro allI impI ballI)
    fix j i assume j: "j < length scores" and nj: "j \<notin> set ?top" and i: "i \<in> set ?top"
    have "j \<in> set (rev ?perm)" using j st by simp
    then have "j \<in> set (drop (nat k) (rev ?perm))"
      using nj by (metis Un_iff append_take_drop_id set_append)
    with r i show "scores ! j \<le> scores ! i"
      by (rule sorted_wrt_take_drop)
  qed
qed

lemma recommend_loop_eq:
  "recommend_loop s scores idxs =
     map (\<lambda>i. \<lparr> r_stock_code = the (product_map s (int i)), r_score = scores ! i,
                 r_name = product_data s (the (product_map s (int i))) \<rparr>)
       (filter (\<lambda>i. product_map s (int i) \<noteq> None \<and> product_map s (int i) \<noteq> Some []) idxs)"
  by (induction idxs) (auto split: option.splits)


text \<open>
  Claim C1, as amended. For an initialized engine whose user and item factors fit
  (the user's index is a row of the user factors, and that row is as long as the item
  factor matrix has rows), a user with an index, \<open>k \<ge> 0\<close> and an \<^verbatim>\<open>argsort\<close> that
  keeps numpy's promise, \<open>recommend\<close> returns the entries of the registered items
  (those with a stock code that is not empty) among a list \<open>top\<close> of item indices.
  \<open>top\<close> holds \<open>min k n\<close> of the \<open>n\<close> items, each once, in descending order of score,
  and no item outside it scores more than one in it. Each entry is scored by the inner
  product of the user's factors with the item's column, so the result has at most
  \<open>k\<close> entries in descending order of score. The order of items with equal scores is
  the one \<^verbatim>\<open>argsort\<close> happens to give: nothing puts the lower index first.
\<close>

theorem recommend_ranked:
  assumes "initialized s"
      and "user_map s uid = Some u"
      and "user_factors s = Some F"
      and "u < length F"
      and "svd_model s = Some (Fitted M)"
      and "length (F ! u) = length M"
      and "0 \<le> k"
      and "\<forall>scores. is_argsort scores (np_argsort L scores)"
  shows "\<exists>top. recommend L s uid k =
            (Inr (map (\<lambda>i. \<lparr> r_stock_code = the (product_map s (int i)),
                               r_score = dot (F ! u) (column M i),
                               r_name = product_data s (the (product_map s (int i))) \<rparr>)
                    (filter (\<lambda>i. product_map s (int i) \<noteq> None
                                 \<and> product_map s (int i) \<noteq> Some []) top)), s)
          \<and> length top = min (nat k) (ncols M)
          \<and> distinct top
          \<and> (\<forall>i\<in>set top. i < ncols M)
          \<and> sorted_wrt (\<lambda>i j. dot (F ! u) (column M j) \<le> dot (F ! u) (column M i)) top
          \<and> (\<forall>j<ncols M. j \<notin> set top \<longrightarrow>
                (\<forall>i\<in>set top. dot (F ! u) (column M j) \<le> dot (F ! u) (column M i)))
          \<and> length (filter (\<lambda>i. product_map s (int i) \<noteq> None
                                 \<and> product_map s (int i) \<noteq> Some []) top) \<le> nat k
          \<and> sorted_wrt (\<lambda>a b. r_score b \<le> r_score a)
                (map (\<lambda>i. \<lparr> r_stock_code = the (product_map s (int i)),
                               r_score = dot (F ! u) (column M i),
                               r_name = product_data s (the (product_map s (int i))) \<rparr>)
                    (filter (\<lambda>i. product_map s (int i) \<noteq> None
                                 \<and> product_map s (int i) \<noteq> Some []) top))"
proof -
  let ?sc = "\<lambda>i. dot (F ! u) (column M i)"
  let ?scores = "map ?sc [0..<ncols M]"
  let ?keep = "\<lambda>i. product_map s (int i) \<noteq> None \<and> product_map s (int i) \<noteq> Some []"
  let ?mk = "\<lambda>i. \<lparr> r_stock_code = the (product_map s (int i)), r_score = ?sc i,
                    r_name = product_data s (the (product_map s (int i))) \<rparr>"
  define top where "top = top_indices L ?scores k"
  have a: "is_argsort ?scores (np_argsort L ?scores)"
    using assms(8) by blast
  note b = top_indices_best [OF a assms(7), folded top_def]
  have len: "length top = min (nat k) (ncols M)"
    using b(1) by simp
  have bound: "\<forall>i\<in>set top. i < ncols M"
    using b(3) by simp
  have sc: "?scores ! i = ?sc i" if "i < ncols M" for i
    using that by simp
  have srt: "sorted_wrt (\<lambda>i j. ?sc j \<le> ?sc i) top"
    by (rule sorted_wrt_mono_rel [OF _ b(4)]) (use bound sc in auto)
  have best: "\<forall>j<ncols M. j \<notin> set top \<longrightarrow> (\<forall>i\<in>set top. ?sc j \<le> ?sc i)"
  proof (intro allI impI ballI)
    fix j i assume j: "j < ncols M" and nj: "j \<notin> set top" and i: "i \<in> set top"
    then have "?scores ! j \<le> ?scores ! i" using b(5) by simp
    then show "?sc j \<le> ?sc i"
      using sc [OF j] sc [of i] bound i by simp
  qed
  have dotv: "np_dot (F ! u) M = Inr ?scores"
    using assms(6) by (simp add: np_dot_def)
  have r: "recommend L s uid k = (Inr (recommend_loop s ?scores top), s)"
    using assms(1-5) dotv by (simp add: recommend_def ensure_loaded_def Let_def top_def)
  have m: "recommend_loop s ?scores top = map ?mk (filter ?keep top)"
    unfolding recommend_loop_eq
    by (rule map_cong) (use bound sc in auto)
  have lenf: "length (filter ?keep top) \<le> nat k"
    using length_filter_le [of ?keep top] len by linarith
  have "sorted_wrt (\<lambda>i j. ?sc j \<le> ?sc i) (filter ?keep top)"
    using srt by (rule sorted_wrt_filter)
  then have srtf: "sorted_wrt (\<lambda>a b. r_score b \<le> r_score a) (map ?mk (filter ?keep top))"
    by (simp add: sorted_wrt_map)
  have call: "recommend L s uid k = (Inr (map ?mk (filter ?keep top)), s)"
    using r m by simp
  show ?thesis
    by (rule exI [of _ top]) (intro conjI call len b(2) bound srt best lenf srtf)
qed

lemma example_argsort: "np_argsort example_libs = insertion_argsort"
  by (simp add: example_libs_def)

lemma example_product_map:
  "build_product_map [''A'', ''B'', ''C''] = [0 \<mapsto> ''A'', 1 \<mapsto> ''B'', 2 \<mapsto> ''C'']"
  by (rule ext) (simp add: build_product_map_def dict_of_def)

lemma example_product_data:
  "build_product_data example_products =
     [''A'' \<mapsto> ''alpha'', ''B'' \<mapsto> ''beta'', ''C'' \<mapsto> ''gamma'']"
  by (rule ext) (simp add: build_product_data_def example_products_def dict_of_def)

lemma example_user_map2:
  "build_user_map [''u1'', ''u2''] = [''u1'' \<mapsto> 0, ''u2'' \<mapsto> 1]"
  by (rule ext) (simp add: build_user_map_def dict_of_def)

text \<open>
  Claim C1 as stated fails on the order of equal scores: for \<open>u1\<close> the items \<open>A\<close>
  (index 0) and \<open>B\<close> (index 1) both score 1, and with an \<^verbatim>\<open>argsort\<close> that returns
  the indices \<open>2, 0, 1\<close> for the scores \<open>1, 1, 0\<close>, as numpy's does, \<open>B\<close> is returned
  first.
\<close>

theorem recommend_tie_counterexample:
  "fst (recommend example_libs tie_engine ''u1'' 2) =
     Inr [\<lparr> r_stock_code = ''B'', r_score = 1, r_name = Some ''beta'' \<rparr>,
          \<lparr> r_stock_code = ''A'', r_score = 1, r_name = Some ''alpha'' \<rparr>]
   \<and> reverse_product_map tie_engine ''A'' = Some 0
   \<and> reverse_product_map tie_engine ''B'' = Some 1
   \<and> is_argsort [1, 1, 0] (np_argsort example_libs [1, 1, 0])"
proof -
  have "fst (recommend example_libs tie_engine ''u1'' 2) =
     Inr [\<lparr> r_stock_code = ''B'', r_score = 1, r_name = Some ''beta'' \<rparr>,
          \<lparr> r_stock_code = ''A'', r_score = 1, r_name = Some ''alpha'' \<rparr>]
   \<and> reverse_product_map tie_engine ''A'' = Some 0
   \<and> reverse_product_map tie_engine ''B'' = Some 1"
    by (simp add: recommend_def ensure_loaded_def tie_engine_def example_engine_def
      example_user_map2 example_product_map example_product_data example_argsort
      np_dot_def ncols_def dot_def column_def top_indices_def py_take_def
      insertion_argsort_def build_reverse_product_map_def dict_of_def upt_rec)
  moreover have "is_argsort [1, 1, 0] (np_argsort example_libs [1, 1, 0])"
    unfolding example_argsort by (rule insertion_argsort_is_argsort)
  ultimately show ?thesis by blast
qed

theorem recommend_ranked_witness:
  "initialized example_engine
   \<and> user_map example_engine ''u1'' = Some 0
   \<and> user_factors example_engine = Some [[1, 0], [0, 1]]
   \<and> svd_model example_engine = Some (Fitted [[2, 0, 1], [0, 3, 1]])
   \<and> (\<forall>scores. is_argsort scores (np_argsort example_libs scores))
   \<and> recommend example_libs example_engine ''u1'' 2 =
        (Inr [\<lparr> r_stock_code = ''A'', r_score = 2, r_name = Some ''alpha'' \<rparr>,
              \<lparr> r_stock_code = ''C'', r_score = 1, r_name = Some ''gamma'' \<rparr>], example_engine)
   \<and> (\<exists>top. recommend example_libs example_engine ''u1'' 2 =
            (Inr (map (\<lambda>i. \<lparr> r_stock_code = the (product_map example_engine (int i)),
                               r_score = dot [1, 0] (column [[2, 0, 1], [0, 3, 1]] i),
                               r_name = product_data example_engine
                                          (the (product_map example_engine (int i))) \<rparr>)
                    (filter (\<lambda>i. product_map example_engine (int i) \<noteq> None
                                 \<and> product_map example_engine (int i) \<noteq> Some []) top)),
             example_engine)
          \<and> length top = min (nat 2) (ncols [[2, 0, 1], [0, 3, 1]])
          \<and> distinct top
          \<and> sorted_wrt (\<lambda>i j. dot [1, 0] (column [[2, 0, 1], [0, 3, 1]] j)
                                 \<le> dot [1, 0] (column [[2, 0, 1], [0, 3, 1]] i)) top)"
proof -
  have h1: "initialized example_engine"
    and h2: "user_map example_engine ''u1'' = Some 0"
    and h3: "user_factors example_engine = Some [[1, 0], [0, 1]]"
    and h5: "svd_model example_engine = Some (Fitted [[2, 0, 1], [0, 3, 1]])"
    by (simp_all add: example_engine_def example_user_map2)
  have h4: "(0::nat) < length [[1, 0], [0, 1::real]]" by simp
  have h6: "length ([[1, 0], [0, 1::real]] ! 0) = length [[2, 0, 1], [0, 3, 1::real]]" by simp
  have h7: "(0::int) \<le> 2" by simp
  have h8: "\<forall>scores. is_argsort scores (np_argsort example_libs scores)"
    unfolding example_argsort by (simp add: insertion_argsort_is_argsort)
  have v: "recommend example_libs example_engine ''u1'' 2 =
        (Inr [\<lparr> r_stock_code = ''A'', r_score = 2, r_name = Some ''alpha'' \<rparr>,
              \<lparr> r_stock_code = ''C'', r_score = 1, r_name = Some ''gamma'' \<rparr>], example_engine)"
    by (simp add: recommend_def ensure_loaded_def h1 h2 h3 h5 example_argsort
      np_dot_def ncols_def dot_def column_def top_indices_def py_take_def
      insertion_argsort_def upt_rec)
       (simp add: example_engine_def example_product_map example_product_data)
  from recommend_ranked [OF h1 h2 h3 h4 h5 h6 h7 h8]
  obtain top where
    "recommend example_libs example_engine ''u1'' 2 =
            (Inr (map (\<lambda>i. \<lparr> r_stock_code = the (product_map example_engine (int i)),
                               r_score = dot [1, 0] (column [[2, 0, 1], [0, 3, 1]] i),
                               r_name = product_data example_engine
                                          (the (product_map example_engine (int i))) \<rparr>)
                    (filter (\<lambda>i. product_map example_engine (int i) \<noteq> None
                                 \<and> product_map example_engine (int i) \<noteq> Some []) top)),
             example_engine)"
    "length top = min (nat 2) (ncols [[2, 0, 1], [0, 3, 1]])"
    "distinct top"
    "sorted_wrt (\<lambda>i j. dot [1, 0] (column [[2, 0, 1], [0, 3, 1]] j)
                                 \<le> dot [1, 0] (column [[2, 0, 1], [0, 3, 1]] i)) top"
    by (auto simp del: sorted_wrt.simps)
  with h1 h2 h3 h5 h8 v show ?thesis by blast
qed

section \<open>Cold start\<close>

lemma load_sentence_model_initialized:
  "initialized (snd (load_sentence_model L s)) = initialized s"
  by (simp add: load_sentence_model_def)

lemma load_models_initialized:
  "\<not> initialized s \<Longrightarrow> initialized (snd (load_models L s)) = artifact_on_disk L s"
  by (auto simp add: load_models_def artifact_on_disk_def load_sentence_model_def Let_def
      split: disk_file.splits prod.splits)

lemma ensure_loaded_initialized:
  "initialized (ensure_loaded L s) = (initialized s \<or> artifact_on_disk L s)"
  by (simp add: ensure_loaded_def load_models_initialized)

text \<open>
  Claim C3. When no artifact is published (the engine is not initialized and no
  complete artifact can be loaded from the model directory), or when the user has no
  index in the user mapping the call reads, \<open>recommend\<close> returns the empty list and
  raises nothing.
\<close>

theorem recommend_cold_start:
  assumes "(\<not> initialized s \<and> \<not> artifact_on_disk L s)
           \<or> user_map (ensure_loaded L s) uid = None"
  shows "recommend L s uid k = (Inr [], ensure_loaded L s)"
proof (cases "initialized (ensure_loaded L s)")
  case False
  then show ?thesis by (simp add: recommend_def Let_def)
next
  case True
  then have "user_map (ensure_loaded L s) uid = None"
    using assms unfolding ensure_loaded_initialized by blast
  then show ?thesis by (simp add: recommend_def Let_def)
qed

theorem recommend_cold_start_witness:
  "\<not> initialized init_engine \<and> \<not> artifact_on_disk example_libs init_engine
   \<and> fst (recommend example_libs init_engine ''u1'' 5) = Inr []
   \<and> user_map (ensure_loaded example_libs example_engine) ''unknown-user'' = None
   \<and> fst (recommend example_libs example_engine ''unknown-user'' 5) = Inr []"
proof -
  have a: "\<not> initialized init_engine \<and> \<not> artifact_on_disk example_libs init_engine"
    by (simp add: init_engine_def artifact_on_disk_def)
  have b: "user_map (ensure_loaded example_libs example_engine) ''unknown-user'' = None"
    by (simp add: ensure_loaded_def example_engine_def build_user_map_def dict_of_def)
  from a have "recommend example_libs init_engine ''u1'' 5 =
      (Inr [], ensure_loaded example_libs init_engine)"
    by (intro recommend_cold_start disjI1)
  moreover from b have "recommend example_libs example_engine ''unknown-user'' 5 =
      (Inr [], ensure_loaded example_libs example_engine)"
    by (intro recommend_cold_start disjI2)
  ultimately show ?thesis using a b by simp
qed

section \<open>Search results are registered items\<close>

lemma search_loop_eq:
  "search_loop s pairs =
     map (\<lambda>(idx, d). \<lparr> h_stock_code = the (product_map s idx),
            h_description = (case product_data s (the (product_map s idx)) of
                               None \<Rightarrow> ''Unknown'' | Some x \<Rightarrow> x),
            h_score = d \<rparr>)
       (filter (\<lambda>(idx, d). product_map s idx \<noteq> None) pairs)"
  by (induction pairs) (auto split: option.splits)

lemma search_loop_registered:
  "h \<in> set (search_loop s pairs) \<Longrightarrow>
     \<exists>idx\<in>fst ` set pairs. product_map s idx = Some (h_stock_code h)"
  by (induction pairs) (auto split: option.splits)

lemma length_search_loop: "length (search_loop s pairs) \<le> length pairs"
  by (induction pairs) (auto split: option.splits)

lemma index_search_length:
  assumes "index_search ix q k = Inr (ds, is)"
  shows "length ds = nat k \<and> length is = nat k"
  using assms
  by (auto simp: index_search_def Let_def split: if_splits)

text \<open>
  Claim C10. Whatever \<open>search\<close> returns, every stock code in it is a value of the
  item mapping of the engine the call read, and there are at most \<open>k\<close> entries: an
  index the vector index reports without an entry in the mapping, such as the
  placeholder \<open>-1\<close>, produces no entry.
\<close>

theorem search_only_registered:
  assumes "search L s query k = (Inr hits, s')"
  shows "(\<forall>h\<in>set hits. \<exists>idx. product_map s' idx = Some (h_stock_code h))
         \<and> length hits \<le> nat k"
proof -
  have s': "s' = ensure_loaded L s"
    using assms by (auto simp: search_def Let_def split: if_splits option.splits sum.splits)
  show ?thesis
  proof (cases "hits = []")
    case True
    then show ?thesis by simp
  next
    case False
    then obtain ix ds "is" where ix: "faiss_index s' = Some ix"
      and r: "index_search ix (encode L query) k = Inr (ds, is)"
      and h: "hits = search_loop s' (zip is ds)"
      using assms unfolding s'
      by (auto simp: search_def Let_def split: if_splits option.splits sum.splits)
    have "length hits \<le> length (zip is ds)"
      unfolding h by (rule length_search_loop)
    then have len: "length hits \<le> nat k"
      using index_search_length [OF r] by simp
    have "\<exists>idx. product_map s' idx = Some (h_stock_code x)" if "x \<in> set hits" for x
      using search_loop_registered [of x s' "zip is ds"] that h by blast
    with len show ?thesis by blast
  qed
qed

lemma example_index_search:
  "index_search \<lparr> ix_dim = 2, ix_vectors = [[0, 0], [1, 0], [5, 5]] \<rparr> [1 / 10, 1 / 10] 5 =
     Inr ([1 / 50, 41 / 50, 2401 / 50, FLT_MAX, FLT_MAX], [0, 1, 2, - 1, - 1])"
  by (simp add: index_search_def l2sqr_def upt_rec power2_eq_square Let_def
      numeral_eq_Suc)

lemma example_search:
  "search example_libs example_engine ''q'' 5 =
     (Inr [\<lparr> h_stock_code = ''A'', h_description = ''alpha'', h_score = 1 / 50 \<rparr>,
           \<lparr> h_stock_code = ''B'', h_description = ''beta'', h_score = 41 / 50 \<rparr>,
           \<lparr> h_stock_code = ''C'', h_description = ''gamma'', h_score = 2401 / 50 \<rparr>],
      example_engine)"
proof -
  have e: "encode example_libs ''q'' = [1 / 10, 1 / 10]"
    by (simp add: example_libs_def)
  have f: "faiss_index example_engine =
      Some \<lparr> ix_dim = 2, ix_vectors = [[0, 0], [1, 0], [5, 5]] \<rparr>"
    "initialized example_engine" "sentence_model example_engine"
    "product_map example_engine = [0 \<mapsto> ''A'', 1 \<mapsto> ''B'', 2 \<mapsto> ''C'']"
    "product_data example_engine = [''A'' \<mapsto> ''alpha'', ''B'' \<mapsto> ''beta'', ''C'' \<mapsto> ''gamma'']"
    by (simp_all add: example_engine_def example_product_map example_product_data)
  show ?thesis
    by (simp add: search_def ensure_loaded_def Let_def e f example_index_search)
qed

theorem search_only_registered_witness:
  "search example_libs example_engine ''q'' 5 =
     (Inr [\<lparr> h_stock_code = ''A'', h_description = ''alpha'', h_score = 1 / 50 \<rparr>,
           \<lparr> h_stock_code = ''B'', h_description = ''beta'', h_score = 41 / 50 \<rparr>,
           \<lparr> h_stock_code = ''C'', h_description = ''gamma'', h_score = 2401 / 50 \<rparr>],
      example_engine)
   \<and> (\<exists>idx. product_map example_engine idx = Some ''A'')
   \<and> (\<exists>idx. product_map example_engine idx = Some ''B'')
   \<and> (\<exists>idx. product_map example_engine idx = Some ''C'')
   \<and> length [\<lparr> h_stock_code = ''A'', h_description = ''alpha'', h_score = 1 / 50 \<rparr>,
           \<lparr> h_stock_code = ''B'', h_description = ''beta'', h_score = 41 / 50 \<rparr>,
           \<lparr> h_stock_code = ''C'', h_description = ''gamma'', h_score = 2401 / 50 \<rparr>] \<le> nat 5"
  using search_only_registered [OF example_search] example_search by simp

section \<open>Exact nearest-neighbour search\<close>

lemma zip_pad:
  "zip (map snd best @ replicate n a) (map fst best @ replicate n b)
     = map (\<lambda>p. (snd p, fst p)) best @ replicate n (a, b)"
  by (simp add: zip_append zip_map_map zip_replicate zip_same_conv_map)

lemma search_loop_append:
  "search_loop s (xs @ ys) = search_loop s xs @ search_loop s ys"
  by (induction xs) (auto split: option.splits)

lemma search_loop_replicate:
  "product_map s a = None \<Longrightarrow> search_loop s (replicate n (a, b)) = []"
  by (induction n) simp_all

lemma search_loop_indices:
  "search_loop s (map (\<lambda>i. (int i, d i)) js) =
     map (\<lambda>i. \<lparr> h_stock_code = the (product_map s (int i)),
            h_description = (case product_data s (the (product_map s (int i))) of
                               None \<Rightarrow> ''Unknown'' | Some x \<Rightarrow> x),
            h_score = d i \<rparr>)
       (filter (\<lambda>i. product_map s (int i) \<noteq> None) js)"
  by (induction js) (auto split: option.splits)

lemma index_search_ok:
  assumes "0 < k" and "length q = ix_dim ix"
  shows "index_search ix q k =
     (let best = take (nat k) (sort_key fst
                   (map (\<lambda>i. (l2sqr q (ix_vectors ix ! i), int i)) [0..<length (ix_vectors ix)]))
      in Inr (map fst best @ replicate (nat k - length best) FLT_MAX,
              map snd best @ replicate (nat k - length best) (- 1)))"
  using assms by (simp add: index_search_def Let_def)

text \<open>
  Claim C2. For an initialized engine with an encoder and a vector index, a query
  whose vector has the index's dimension, a positive \<open>k\<close> and an item mapping without
  the placeholder \<open>-1\<close>, \<open>search\<close> returns the entries of the registered ones among the
  \<open>k\<close> nearest items (all items, if the index holds fewer than \<open>k\<close>). These nearest
  items \<open>top\<close> are found by comparing every item: there are \<open>min k n\<close> of them, each
  once, in ascending order of the exact squared Euclidean distance between the query
  vector and the item's vector and, at equal distance, of index, and every item that
  is not among them comes after each of them in that order. Each entry carries that
  distance, so the result has at most \<open>k\<close> entries in ascending order of distance.
\<close>

theorem search_exact:
  assumes "initialized s"
      and "sentence_model s"
      and "faiss_index s = Some ix"
      and "length (encode L query) = ix_dim ix"
      and "0 < k"
      and "product_map s (- 1) = None"
  shows "\<exists>top. search L s query k =
            (Inr (map (\<lambda>i. \<lparr> h_stock_code = the (product_map s (int i)),
                    h_description = (case product_data s (the (product_map s (int i))) of
                                       None \<Rightarrow> ''Unknown'' | Some x \<Rightarrow> x),
                    h_score = l2sqr (encode L query) (ix_vectors ix ! i) \<rparr>)
                    (filter (\<lambda>i. product_map s (int i) \<noteq> None) top)), s)
          \<and> length top = min (nat k) (length (ix_vectors ix))
          \<and> distinct top
          \<and> (\<forall>i\<in>set top. i < length (ix_vectors ix))
          \<and> sorted_wrt (\<lambda>i j. l2sqr (encode L query) (ix_vectors ix ! i)
                                  < l2sqr (encode L query) (ix_vectors ix ! j)
                 \<or> (l2sqr (encode L query) (ix_vectors ix ! i)
                       = l2sqr (encode L query) (ix_vectors ix ! j) \<and> i < j)) top
          \<and> (\<forall>j<length (ix_vectors ix). j \<notin> set top \<longrightarrow>
                (\<forall>i\<in>set top. l2sqr (encode L query) (ix_vectors ix ! i)
                                  < l2sqr (encode L query) (ix_vectors ix ! j)
                 \<or> (l2sqr (encode L query) (ix_vectors ix ! i)
                       = l2sqr (encode L query) (ix_vectors ix ! j) \<and> i < j)))
          \<and> length (filter (\<lambda>i. product_map s (int i) \<noteq> None) top) \<le> nat k
          \<and> sorted_wrt (\<lambda>a b. h_score a \<le> h_score b)
                (map (\<lambda>i. \<lparr> h_stock_code = the (product_map s (int i)),
                    h_description = (case product_data s (the (product_map s (int i))) of
                                       None \<Rightarrow> ''Unknown'' | Some x \<Rightarrow> x),
                    h_score = l2sqr (encode L query) (ix_vectors ix ! i) \<rparr>)
                    (filter (\<lambda>i. product_map s (int i) \<noteq> None) top))"
proof -
  let ?n = "length (ix_vectors ix)"
  let ?d = "\<lambda>i. l2sqr (encode L query) (ix_vectors ix ! i)"
  let ?lt = "\<lambda>i j. ?d i < ?d j \<or> (?d i = ?d j \<and> i < j)"
  let ?L = "\<lambda>a b. fst a < fst b \<or> (fst a = fst b \<and> snd a < (snd b :: int))"
  let ?keep = "\<lambda>i. product_map s (int i) \<noteq> None"
  let ?mk = "\<lambda>i. \<lparr> h_stock_code = the (product_map s (int i)),
                    h_description = (case product_data s (the (product_map s (int i))) of
                                       None \<Rightarrow> ''Unknown'' | Some x \<Rightarrow> x),
                    h_score = ?d i \<rparr>"
  define sc where "sc = map (\<lambda>i. (?d i, int i)) [0..<?n]"
  define srt where "srt = sort_key fst sc"
  define best where "best = take (nat k) srt"
  define top where "top = map (nat \<circ> snd) best"
  have "sorted_wrt (\<lambda>a b. snd a < snd b) sc"
    unfolding sc_def by (simp add: sorted_wrt_map sorted_wrt_iff_nth_less)
  then have srt: "sorted_wrt ?L srt"
    unfolding srt_def by (rule sort_key_lex)
  have set_srt: "set srt = (\<lambda>i. (?d i, int i)) ` {0..<?n}"
    unfolding srt_def sc_def by simp
  have len_srt: "length srt = ?n"
    unfolding srt_def sc_def by simp
  have el: "p = (?d (nat (snd p)), int (nat (snd p))) \<and> nat (snd p) < ?n"
    if "p \<in> set srt" for p
    using that unfolding set_srt by auto
  have bs: "set best \<subseteq> set srt"
    unfolding best_def by (rule set_take_subset)
  have swap: "map (\<lambda>p. (snd p, fst p)) best = map (\<lambda>i. (int i, ?d i)) top"
    unfolding top_def map_map
  proof (rule map_cong [OF refl])
    fix p assume "p \<in> set best"
    then have "p = (?d (nat (snd p)), int (nat (snd p)))" using el bs by blast
    then have "fst p = ?d (nat (snd p))" "snd p = int (nat (snd p))"
      by (metis fst_conv, metis snd_conv)
    then show "(snd p, fst p) = ((\<lambda>i. (int i, ?d i)) \<circ> (nat \<circ> snd)) p"
      by simp
  qed
  have "index_search ix (encode L query) k =
      Inr (map fst best @ replicate (nat k - length best) FLT_MAX,
           map snd best @ replicate (nat k - length best) (- 1))"
    unfolding best_def srt_def sc_def
    using index_search_ok [OF assms(5) assms(4)] by (simp only: Let_def)
  then have "search L s query k =
      (Inr (search_loop s (map (\<lambda>p. (snd p, fst p)) best
              @ replicate (nat k - length best) (- 1, FLT_MAX))), s)"
    using assms(1-3) by (simp add: search_def ensure_loaded_def Let_def zip_pad)
  then have call: "search L s query k = (Inr (map ?mk (filter ?keep top)), s)"
    unfolding search_loop_append search_loop_replicate [OF assms(6)] swap search_loop_indices
    by simp
  have len: "length top = min (nat k) ?n"
    unfolding top_def best_def using len_srt by simp
  have lenf: "length (filter ?keep top) \<le> nat k"
    using length_filter_le [of ?keep top] len by linarith
  have "distinct (map snd sc)"
    unfolding sc_def by (simp add: distinct_map comp_def inj_on_def)
  then have "distinct (map snd srt)"
    unfolding srt_def by (metis distinct_map distinct_sort inj_on_cong set_sort)
  then have "distinct (map snd best)"
    unfolding best_def by (metis distinct_take take_map)
  moreover have "inj_on nat (set (map snd best))"
  proof (rule inj_onI)
    fix x y assume "x \<in> set (map snd best)" "y \<in> set (map snd best)" "nat x = nat y"
    moreover have "0 \<le> z" if "z \<in> set (map snd best)" for z
    proof -
      from that obtain p where "p \<in> set best" "z = snd p" by auto
      then have "z = int (nat (snd p))" using el bs by (metis snd_conv subsetD)
      then show ?thesis by simp
    qed
    ultimately show "x = y" by (metis nat_eq_iff2)
  qed
  ultimately have "distinct (map nat (map snd best))"
    by (simp only: distinct_map)
  then have dist: "distinct top"
    unfolding top_def by simp
  have mem: "\<forall>i\<in>set top. i < ?n"
    unfolding top_def using el bs by auto
  have "sorted_wrt ?L best"
    unfolding best_def using srt by (rule sorted_wrt_take)
  then have "sorted_wrt (\<lambda>a b. ?lt (nat (snd a)) (nat (snd b))) best"
  proof (rule sorted_wrt_mono_rel [rotated])
    fix a b assume a: "a \<in> set best" and b: "b \<in> set best" and L: "?L a b"
    have "a = (?d (nat (snd a)), int (nat (snd a)))" "b = (?d (nat (snd b)), int (nat (snd b)))"
      using a b el bs by blast+
    then have "fst a = ?d (nat (snd a))" "snd a = int (nat (snd a))"
      "fst b = ?d (nat (snd b))" "snd b = int (nat (snd b))"
      by (metis fst_conv, metis snd_conv, metis fst_conv, metis snd_conv)
    then show "?lt (nat (snd a)) (nat (snd b))"
      using L by (metis of_nat_less_iff)
  qed
  then have sorted: "sorted_wrt ?lt top"
    unfolding top_def by (simp add: sorted_wrt_map)
  then have "sorted_wrt ?lt (filter ?keep top)"
    by (rule sorted_wrt_filter)
  then have "sorted_wrt (\<lambda>i j. ?d i \<le> ?d j) (filter ?keep top)"
    by (rule sorted_wrt_mono_rel [rotated]) auto
  then have sortedf: "sorted_wrt (\<lambda>a b. h_score a \<le> h_score b) (map ?mk (filter ?keep top))"
    by (simp add: sorted_wrt_map)
  have exact: "\<forall>j<?n. j \<notin> set top \<longrightarrow> (\<forall>i\<in>set top. ?lt i j)"
  proof (intro allI impI ballI)
    fix j i assume j: "j < ?n" and nj: "j \<notin> set top" and i: "i \<in> set top"
    from nj have "(?d j, int j) \<notin> set best"
      unfolding top_def by force
    moreover have "(?d j, int j) \<in> set srt"
      unfolding set_srt using j by simp
    ultimately have jr: "(?d j, int j) \<in> set (drop (nat k) srt)"
      unfolding best_def
      by (metis Un_iff append_take_drop_id set_append)
    from i obtain p where p: "p \<in> set best" "i = nat (snd p)"
      unfolding top_def by auto
    then have pe: "p = (?d i, int i)" using el bs by blast
    have "?L p (?d j, int j)"
      using srt p(1) jr unfolding best_def by (rule sorted_wrt_take_drop)
    then have "?L (?d i, int i) (?d j, int j)"
      unfolding pe [symmetric] .
    then show "?lt i j"
      by (simp only: fst_conv snd_conv of_nat_less_iff)
  qed
  show ?thesis
    by (rule exI [of _ top]) (intro conjI call len dist mem sorted exact lenf sortedf)
qed


theorem search_exact_witness:
  "initialized example_engine \<and> sentence_model example_engine
   \<and> faiss_index example_engine = Some \<lparr> ix_dim = 2, ix_vectors = [[0, 0], [1, 0], [5, 5]] \<rparr>
   \<and> product_map example_engine (- 1) = None
   \<and> search example_libs example_engine ''q'' 2 =
        (Inr [\<lparr> h_stock_code = ''A'', h_description = ''alpha'', h_score = 1 / 50 \<rparr>,
              \<lparr> h_stock_code = ''B'', h_description = ''beta'', h_score = 41 / 50 \<rparr>],
         example_engine)
   \<and> (\<exists>top. search example_libs example_engine ''q'' 2 =
            (Inr (map (\<lambda>i. \<lparr> h_stock_code = the (product_map example_engine (int i)),
                    h_description =
                      (case product_data example_engine (the (product_map example_engine (int i))) of
                         None \<Rightarrow> ''Unknown'' | Some x \<Rightarrow> x),
                    h_score = l2sqr [1 / 10, 1 / 10] ([[0, 0], [1, 0], [5, 5]] ! i) \<rparr>)
                    (filter (\<lambda>i. product_map example_engine (int i) \<noteq> None) top)),
             example_engine)
          \<and> length top = min (nat 2) (length [[0, 0], [1, 0], [5, 5 :: real]])
          \<and> distinct top
          \<and> sorted_wrt (\<lambda>i j. l2sqr [1 / 10, 1 / 10] ([[0, 0], [1, 0], [5, 5]] ! i)
                                  < l2sqr [1 / 10, 1 / 10] ([[0, 0], [1, 0], [5, 5]] ! j)
                 \<or> (l2sqr [1 / 10, 1 / 10] ([[0, 0], [1, 0], [5, 5]] ! i)
                       = l2sqr [1 / 10, 1 / 10] ([[0, 0], [1, 0], [5, 5]] ! j) \<and> i < j)) top)"
proof -
  have h1: "initialized example_engine" and h2: "sentence_model example_engine"
    and h3: "faiss_index example_engine =
        Some \<lparr> ix_dim = 2, ix_vectors = [[0, 0], [1, 0], [5, 5]] \<rparr>"
    and h6: "product_map example_engine (- 1) = None"
    by (simp_all add: example_engine_def example_product_map)
  have h4: "length (encode example_libs ''q'')
      = ix_dim \<lparr> ix_dim = 2, ix_vectors = [[0, 0], [1, 0], [5, 5]] \<rparr>"
    by (simp add: example_libs_def)
  have h5: "(0::int) < 2" by simp
  have e: "encode example_libs ''q'' = [1 / 10, 1 / 10]"
    by (simp add: example_libs_def)
  have ix: "index_search \<lparr> ix_dim = 2, ix_vectors = [[0, 0], [1, 0], [5, 5]] \<rparr>
      [1 / 10, 1 / 10] 2 = Inr ([1 / 50, 41 / 50], [0, 1])"
    by (simp add: index_search_def l2sqr_def upt_rec power2_eq_square Let_def numeral_eq_Suc)
  have f: "product_map example_engine = [0 \<mapsto> ''A'', 1 \<mapsto> ''B'', 2 \<mapsto> ''C'']"
    "product_data example_engine = [''A'' \<mapsto> ''alpha'', ''B'' \<mapsto> ''beta'', ''C'' \<mapsto> ''gamma'']"
    by (simp_all add: example_engine_def example_product_map example_product_data)
  have v: "search example_libs example_engine ''q'' 2 =
        (Inr [\<lparr> h_stock_code = ''A'', h_description = ''alpha'', h_score = 1 / 50 \<rparr>,
              \<lparr> h_stock_code = ''B'', h_description = ''beta'', h_score = 41 / 50 \<rparr>],
         example_engine)"
    by (simp add: search_def ensure_loaded_def Let_def e h1 h2 h3 f ix)
  from search_exact [OF h1 h2 h3 h4 h5 h6]
  obtain top where
    "search example_libs example_engine ''q'' 2 =
            (Inr (map (\<lambda>i. \<lparr> h_stock_code = the (product_map example_engine (int i)),
                    h_description =
                      (case product_data example_engine (the (product_map example_engine (int i))) of
                         None \<Rightarrow> ''Unknown'' | Some x \<Rightarrow> x),
                    h_score = l2sqr [1 / 10, 1 / 10] ([[0, 0], [1, 0], [5, 5]] ! i) \<rparr>)
                    (filter (\<lambda>i. product_map example_engine (int i) \<noteq> None) top)),
             example_engine)"
    "length top = min (nat 2) (length [[0, 0], [1, 0], [5, 5 :: real]])"
    "distinct top"
    "sorted_wrt (\<lambda>i j. l2sqr [1 / 10, 1 / 10] ([[0, 0], [1, 0], [5, 5]] ! i)
                                  < l2sqr [1 / 10, 1 / 10] ([[0, 0], [1, 0], [5, 5]] ! j)
                 \<or> (l2sqr [1 / 10, 1 / 10] ([[0, 0], [1, 0], [5, 5]] ! i)
                       = l2sqr [1 / 10, 1 / 10] ([[0, 0], [1, 0], [5, 5]] ! j) \<and> i < j)) top"
    unfolding e by (auto simp del: sorted_wrt.simps length_Cons list.size)
  with h1 h2 h3 h6 v show ?thesis by blast
qed

section \<open>Runs of the training method\<close>

lemma train_run_small:
  assumes "ts \<noteq> []" and "ps \<noteq> []" and "length ps < n_components"
  shows "train_run L ts ps s =
     (Some ValueError,
      [register_users ts s, register_items ps (register_users ts s),
       (register_items ps (register_users ts s))\<lparr> svd_model := Some Unfitted \<rparr>])"
proof -
  obtain X where X: "build_interaction_matrix ts ps = Inr X"
    and sh: "shape X = (length (unique (map user_id ts)), length ps)"
    using build_interaction_matrix_cell [of ts ps] by blast
  have "fit_transform L n_components X = Inl ValueError"
    using assms(3) sh by (simp add: fit_transform_def)
  then show ?thesis
    using assms(1,2) X by (simp add: train_run_def Let_def)
qed

lemma train_sync_final:
  assumes "ts \<noteq> []" and "ps \<noteq> []"
      and "build_interaction_matrix ts ps = Inr X"
      and "fit_transform L n_components X = Inr (factors, comps)"
      and "sentence_model s \<or> st_available L"
      and "index_add (IndexFlatL2 (length (hd (map (\<lambda>p. encode L (description p)) ps))))
             (map (\<lambda>p. encode L (description p)) ps) = Inr ix"
      and "distinct (map p_id ps)"
  shows "train_sync L ts ps s =
     (None,
      \<lparr> svd_model = Some (Fitted comps), sentence_model = True, faiss_index = Some ix,
        product_map = build_product_map (map p_id ps),
        reverse_product_map = build_reverse_product_map (map p_id ps),
        product_data = build_product_data ps,
        user_map = build_user_map (unique (map user_id ts)),
        reverse_user_map = build_reverse_user_map (unique (map user_id ts)),
        initialized = True, user_factors = Some factors,
        svd_pkl = Stored (Fitted comps, factors, build_user_map (unique (map user_id ts)),
                    build_reverse_user_map (unique (map user_id ts))),
        product_index = Stored ix,
        mappings_pkl = Stored (build_product_map (map p_id ps),
                    build_reverse_product_map (map p_id ps), build_product_data ps) \<rparr>)"
proof -
  have sm: "\<not> (\<not> sentence_model s \<and> \<not> st_available L)"
    using assms(5) by blast
  show ?thesis
    using assms(1-4,6,7) sm
    by (cases s) (simp add: train_sync_def train_run_def Let_def register_users_def
        register_items_def)
qed

lemma train_sync_NoneD:
  assumes "fst (train_sync L ts ps s) = None"
  shows "\<exists>X factors comps ix. ts \<noteq> [] \<and> ps \<noteq> []
      \<and> build_interaction_matrix ts ps = Inr X
      \<and> fit_transform L n_components X = Inr (factors, comps)
      \<and> (sentence_model s \<or> st_available L)
      \<and> index_add (IndexFlatL2 (length (hd (map (\<lambda>p. encode L (description p)) ps))))
             (map (\<lambda>p. encode L (description p)) ps) = Inr ix
      \<and> distinct (map p_id ps)"
  using assms
  by (simp add: train_sync_def train_run_def Let_def register_users_def register_items_def
      split: if_splits sum.splits prod.splits)

lemma train_sync_succeeds:
  assumes "ts \<noteq> []" and "ps \<noteq> []" and "n_components \<le> length ps"
      and "distinct (map p_id ps)"
      and "sentence_model s \<or> st_available L"
      and "\<forall>p\<in>set ps. length (encode L (description p)) = d"
  shows "\<exists>X ix. build_interaction_matrix ts ps = Inr X
     \<and> train_sync L ts ps s =
     (None,
      \<lparr> svd_model = Some (Fitted (snd (svd_solver L n_components X))), sentence_model = True,
        faiss_index = Some ix,
        product_map = build_product_map (map p_id ps),
        reverse_product_map = build_reverse_product_map (map p_id ps),
        product_data = build_product_data ps,
        user_map = build_user_map (unique (map user_id ts)),
        reverse_user_map = build_reverse_user_map (unique (map user_id ts)),
        initialized = True, user_factors = Some (fst (svd_solver L n_components X)),
        svd_pkl = Stored (Fitted (snd (svd_solver L n_components X)),
                    fst (svd_solver L n_components X),
                    build_user_map (unique (map user_id ts)),
                    build_reverse_user_map (unique (map user_id ts))),
        product_index = Stored ix,
        mappings_pkl = Stored (build_product_map (map p_id ps),
                    build_reverse_product_map (map p_id ps), build_product_data ps) \<rparr>)"
proof -
  let ?embs = "map (\<lambda>p. encode L (description p)) ps"
  obtain X where X: "build_interaction_matrix ts ps = Inr X"
    and sh: "shape X = (length (unique (map user_id ts)), length ps)"
    using build_interaction_matrix_cell [of ts ps] by blast
  have ft: "fit_transform L n_components X =
      Inr (fst (svd_solver L n_components X), snd (svd_solver L n_components X))"
    using assms(3) sh by (simp add: fit_transform_def)
  have "hd ?embs \<in> set ?embs"
    using assms(2) by (intro hd_in_set) simp
  then have "length (hd ?embs) = d"
    using assms(6) by auto
  then have "list_all (\<lambda>v. length v = ix_dim (IndexFlatL2 (length (hd ?embs)))) ?embs"
    using assms(6) by (simp add: IndexFlatL2_def list_all_iff)
  then have ia: "index_add (IndexFlatL2 (length (hd ?embs))) ?embs =
      Inr ((IndexFlatL2 (length (hd ?embs)))\<lparr> ix_vectors :=
             ix_vectors (IndexFlatL2 (length (hd ?embs))) @ ?embs \<rparr>)"
    by (simp only: index_add_def if_True)
  show ?thesis
    using X train_sync_final [OF assms(1,2) X ft assms(5) ia assms(4)] by blast
qed

lemma train_run_first:
  assumes "ts \<noteq> []"
  shows "\<exists>rest. snd (train_run L ts ps s) = register_users ts s # rest"
  using assms
  by (simp add: train_run_def Let_def split: sum.splits prod.splits)

lemma example_nonempty:
  "example_transactions \<noteq> []" "example_products \<noteq> []" "many_products \<noteq> []"
  "length example_products = 3" "length many_products = 50"
  by (simp_all add: example_transactions_def example_products_def many_products_def)

lemma many_products_facts:
  "distinct (map p_id many_products)" "''A'' \<notin> set (map p_id many_products)"
  "n_components \<le> length many_products"
  "\<forall>p\<in>set many_products. length (encode example_libs (description p)) = 2"
  by (auto simp: many_products_def distinct_map inj_on_def comp_def n_components_def
      example_libs_def)

section \<open>The rank of the factor model\<close>

text \<open>
  Claim C7, as amended. Training asks the decomposition for \<open>n_components = 50\<close>
  components whatever the size of the snapshot and never lowers the rank itself. For a
  snapshot with transactions and with fewer than 50 products the decomposition
  refuses the request: training ends with \<^verbatim>\<open>ValueError\<close>, leaving the engine with
  the new identifier mappings and an unfitted model. With 50 products or more (of
  distinct \<^verbatim>\<open>_id\<close>, an encoder at hand and embeddings of one dimension) training
  completes with the factors the decomposition returns for 50 requested components,
  however few users there are.
\<close>

theorem train_rank_fixed:
  assumes "ts \<noteq> []" and "ps \<noteq> []"
  shows "(length ps < n_components \<longrightarrow>
            train_sync L ts ps s =
              (Some ValueError,
               (register_items ps (register_users ts s))\<lparr> svd_model := Some Unfitted \<rparr>))
       \<and> (n_components \<le> length ps \<and> distinct (map p_id ps)
            \<and> (sentence_model s \<or> st_available L)
            \<and> (\<forall>p\<in>set ps. length (encode L (description p)) = d) \<longrightarrow>
            (\<exists>X. build_interaction_matrix ts ps = Inr X
               \<and> fst (train_sync L ts ps s) = None
               \<and> svd_model (snd (train_sync L ts ps s))
                   = Some (Fitted (snd (svd_solver L n_components X)))
               \<and> user_factors (snd (train_sync L ts ps s))
                   = Some (fst (svd_solver L n_components X))))"
proof (intro conjI impI)
  assume "length ps < n_components"
  then show "train_sync L ts ps s =
              (Some ValueError,
               (register_items ps (register_users ts s))\<lparr> svd_model := Some Unfitted \<rparr>)"
    using assms by (simp add: train_sync_def train_run_small)
next
  assume big: "n_components \<le> length ps \<and> distinct (map p_id ps)
            \<and> (sentence_model s \<or> st_available L)
            \<and> (\<forall>p\<in>set ps. length (encode L (description p)) = d)"
  then have c: "n_components \<le> length ps" "distinct (map p_id ps)"
      "sentence_model s \<or> st_available L"
      "\<forall>p\<in>set ps. length (encode L (description p)) = d"
    by blast+
  from train_sync_succeeds [OF assms c]
  obtain X ix where X: "build_interaction_matrix ts ps = Inr X"
    and r: "train_sync L ts ps s =
     (None,
      \<lparr> svd_model = Some (Fitted (snd (svd_solver L n_components X))), sentence_model = True,
        faiss_index = Some ix,
        product_map = build_product_map (map p_id ps),
        reverse_product_map = build_reverse_product_map (map p_id ps),
        product_data = build_product_data ps,
        user_map = build_user_map (unique (map user_id ts)),
        reverse_user_map = build_reverse_user_map (unique (map user_id ts)),
        initialized = True, user_factors = Some (fst (svd_solver L n_components X)),
        svd_pkl = Stored (Fitted (snd (svd_solver L n_components X)),
                    fst (svd_solver L n_components X),
                    build_user_map (unique (map user_id ts)),
                    build_reverse_user_map (unique (map user_id ts))),
        product_index = Stored ix,
        mappings_pkl = Stored (build_product_map (map p_id ps),
                    build_reverse_product_map (map p_id ps), build_product_data ps) \<rparr>)"
    by blast
  show "\<exists>X. build_interaction_matrix ts ps = Inr X
               \<and> fst (train_sync L ts ps s) = None
               \<and> svd_model (snd (train_sync L ts ps s))
                   = Some (Fitted (snd (svd_solver L n_components X)))
               \<and> user_factors (snd (train_sync L ts ps s))
                   = Some (fst (svd_solver L n_components X))"
    using X by (intro exI [of _ X]) (simp add: r)
qed

theorem train_rank_fixed_witness:
  "example_transactions \<noteq> [] \<and> example_products \<noteq> [] \<and> many_products \<noteq> []
   \<and> length example_products < n_components
   \<and> train_sync example_libs example_transactions example_products init_engine =
        (Some ValueError,
         (register_items example_products (register_users example_transactions init_engine))
           \<lparr> svd_model := Some Unfitted \<rparr>)
   \<and> n_components \<le> length many_products
   \<and> distinct (map p_id many_products)
   \<and> st_available example_libs
   \<and> fst (train_sync example_libs example_transactions many_products init_engine) = None"
proof -
  have small: "length example_products < n_components"
    by (simp add: example_nonempty n_components_def)
  have st: "st_available example_libs"
    by (simp add: example_libs_def)
  from train_rank_fixed [OF example_nonempty(1) example_nonempty(2), of example_libs init_engine]
    small
  have a: "train_sync example_libs example_transactions example_products init_engine =
        (Some ValueError,
         (register_items example_products (register_users example_transactions init_engine))
           \<lparr> svd_model := Some Unfitted \<rparr>)"
    by blast
  have "n_components \<le> length many_products \<and> distinct (map p_id many_products)
      \<and> (sentence_model init_engine \<or> st_available example_libs)
      \<and> (\<forall>p\<in>set many_products. length (encode example_libs (description p)) = 2)"
    using many_products_facts st by blast
  with train_rank_fixed [OF example_nonempty(1) example_nonempty(3),
      of example_libs init_engine 2]
  have b: "fst (train_sync example_libs example_transactions many_products init_engine) = None"
    by blast
  from example_nonempty(1-3) small a many_products_facts(3,1) st b
  show ?thesis by (intro conjI)
qed

text \<open>
  Claim C7 as stated fails: on a snapshot of two users and three products training
  does not complete with rank 2, it raises \<^verbatim>\<open>ValueError\<close>.
\<close>

theorem train_rank_counterexample:
  "length (unique (map user_id example_transactions)) = 2
   \<and> length example_products = 3
   \<and> fst (train_sync example_libs example_transactions example_products init_engine)
       = Some ValueError"
proof -
  have "train_run example_libs example_transactions example_products init_engine =
     (Some ValueError,
      [register_users example_transactions init_engine,
       register_items example_products (register_users example_transactions init_engine),
       (register_items example_products (register_users example_transactions init_engine))
         \<lparr> svd_model := Some Unfitted \<rparr>])"
    by (rule train_run_small) (simp_all add: example_nonempty n_components_def)
  then show ?thesis
    by (simp add: train_sync_def example_nonempty)
       (simp add: example_transactions_def unique_def)
qed

section \<open>Insufficient data\<close>

lemma sum_list_pos_member:
  fixes f :: "'a \<Rightarrow> real"
  assumes "\<forall>x\<in>set xs. 0 \<le> f x" and "x \<in> set xs" and "0 < f x"
  shows "0 < sum_list (map f xs)"
proof -
  have "f x \<le> sum_list (map f xs)"
    using assms(1,2) by (intro member_le_sum_list) auto
  with assms(3) show ?thesis by linarith
qed

lemma dict_of_member:
  assumes "k \<in> fst ` set kvs"
  shows "\<exists>v. dict_of kvs k = Some v"
proof -
  have "map_of (rev kvs) k \<noteq> None"
    using assms by (simp add: map_of_eq_None_iff)
  then show ?thesis by (auto simp: dict_of_def)
qed

lemma build_reverse_product_map_member:
  assumes "c \<in> set cs"
  shows "\<exists>i. build_reverse_product_map cs c = Some i"
  unfolding build_reverse_product_map_def
proof (rule dict_of_member)
  from assms obtain i where "i < length cs" "cs ! i = c"
    by (auto simp: in_set_conv_nth)
  then have "(c, i) \<in> set (map (\<lambda>(i, code). (code, i)) (enumerate 0 cs))"
    by (force simp: enumerate_eq_zip in_set_zip)
  then show "c \<in> fst ` set (map (\<lambda>(i, code). (code, i)) (enumerate 0 cs))"
    by (rule image_eqI [rotated]) simp
qed

lemma build_user_map_member:
  assumes "c \<in> set cs"
  shows "\<exists>i. build_user_map cs c = Some i"
  using build_reverse_product_map_member [OF assms]
  by (simp add: build_user_map_def build_reverse_product_map_def)

text \<open>
  Claim C5, as amended. The only check for insufficient data is the one of
  \<^verbatim>\<open>train_model_task\<close> for an empty transaction collection. For a snapshot whose
  transactions all have a positive quantity and a registered stock code, an interaction
  matrix without a nonzero cell means that there is no transaction at all; the task
  then skips the build with its message and leaves the engine as it was.
\<close>

theorem insufficient_data_skipped:
  assumes "\<forall>t\<in>set ts. 0 < quantity t \<and> stock_code t \<in> set (map p_id ps)"
      and "build_interaction_matrix ts ps = Inr X"
      and "\<forall>u i. cell X u i = 0"
  shows "ts = [] \<and> train_model_task L ts ps s = (Skipped, s)"
proof -
  have "ts = []"
  proof (rule ccontr)
    assume "ts \<noteq> []"
    then obtain t where t: "t \<in> set ts" by (cases ts) auto
    let ?um = "build_user_map (unique (map user_id ts))"
    let ?rm = "build_reverse_product_map (map p_id ps)"
    let ?f = "\<lambda>u i t. if 0 < quantity t \<and> ?um (user_id t) = Some u \<and> ?rm (stock_code t) = Some i
                     then log1p (real_of_int (quantity t)) else 0"
    have "user_id t \<in> set (unique (map user_id ts))"
      using t by (simp add: set_unique)
    then obtain u where u: "?um (user_id t) = Some u"
      using build_user_map_member by blast
    obtain i where i: "?rm (stock_code t) = Some i"
      using build_reverse_product_map_member assms(1) t by blast
    have c: "cell X u i = (\<Sum>t\<leftarrow>ts. ?f u i t)"
      using build_interaction_matrix_cell [of ts ps] assms(2) by auto
    have nn: "\<forall>x\<in>set ts. 0 \<le> ?f u i x"
      using log1p_pos by (auto intro: less_imp_le)
    have "0 < ?f u i t"
      using u i assms(1) t by (simp add: log1p_pos)
    with nn t have "0 < (\<Sum>t\<leftarrow>ts. ?f u i t)"
      by (rule sum_list_pos_member)
    with c assms(3) show False by simp
  qed
  then show ?thesis by (simp add: train_model_task_def)
qed

lemma build_reverse_product_map_absent:
  assumes "c \<notin> set cs"
  shows "build_reverse_product_map cs c = None"
proof (rule ccontr)
  assume "build_reverse_product_map cs c \<noteq> None"
  then obtain i where "build_reverse_product_map cs c = Some i" by auto
  then have "(c, i) \<in> set (map (\<lambda>(i, code). (code, i)) (enumerate 0 cs))"
    unfolding build_reverse_product_map_def by (rule dict_of_SomeD)
  then have "c \<in> set cs"
    by (auto simp: enumerate_eq_zip in_set_zip)
  with assms show False by simp
qed

lemma returns_only_matrices:
  "build_interaction_matrix returns_only example_products =
     Inr \<lparr> shape = (1, 3), entries = [(0, 0, 0)] \<rparr>"
  "build_interaction_matrix returns_only many_products =
     Inr \<lparr> shape = (1, 50), entries = [] \<rparr>"
proof -
  have u: "build_user_map (unique (map user_id returns_only)) = [''u9'' \<mapsto> 0]"
    by (rule ext) (simp add: returns_only_def unique_def build_user_map_def dict_of_def)
  have l: "length (unique (map user_id returns_only)) = 1"
    by (simp add: returns_only_def unique_def)
  show "build_interaction_matrix returns_only example_products =
     Inr \<lparr> shape = (1, 3), entries = [(0, 0, 0)] \<rparr>"
    unfolding build_interaction_matrix_def Let_def u l example_reverse_product_map
    by (subst interaction_matrix_entries)
       (auto simp: returns_only_def example_products_def split: if_splits)
  have a: "build_reverse_product_map (map p_id many_products) ''A'' = None"
    by (rule build_reverse_product_map_absent) (rule many_products_facts)
  show "build_interaction_matrix returns_only many_products =
     Inr \<lparr> shape = (1, 50), entries = [] \<rparr>"
    unfolding build_interaction_matrix_def Let_def u l
    by (subst interaction_matrix_entries)
       (auto simp: returns_only_def a example_nonempty
          dest: build_reverse_product_map_bound split: if_splits)
qed

theorem insufficient_data_skipped_witness:
  "build_interaction_matrix [] example_products = Inr \<lparr> shape = (0, 3), entries = [] \<rparr>
   \<and> train_model_task example_libs [] example_products example_engine
       = (Skipped, example_engine)"
proof -
  have m: "build_interaction_matrix [] example_products =
      Inr \<lparr> shape = (0, 3), entries = [] \<rparr>"
    by (simp add: build_interaction_matrix_def interaction_matrix_def csr_matrix_def
        mask_select_def unique_def example_products_def)
  have v: "\<forall>t\<in>set []. 0 < quantity t \<and> stock_code t \<in> set (map p_id example_products)"
    by simp
  have z: "\<forall>u i. cell \<lparr> shape = (0, 3), entries = [] \<rparr> u i = 0"
    by (simp add: cell_def)
  from insufficient_data_skipped [OF v m z, of example_libs example_engine] m
  show ?thesis by simp
qed

text \<open>
  Claim C5 as stated fails. A snapshot whose only transaction is a return gives a
  matrix without a nonzero cell, and the build is not aborted with a signal of its
  own. With three products it ends in the decomposition's \<^verbatim>\<open>ValueError\<close> after the
  identifier mappings of the published artifact have been replaced (the user \<open>u1\<close>
  is gone); with fifty products it completes and publishes factors that are all zero.
\<close>

theorem insufficient_data_counterexample:
  "build_interaction_matrix returns_only example_products =
     Inr \<lparr> shape = (1, 3), entries = [(0, 0, 0)] \<rparr>
   \<and> train_model_task example_libs returns_only example_products example_engine =
       (Raised ValueError,
        (register_items example_products (register_users returns_only example_engine))
          \<lparr> svd_model := Some Unfitted \<rparr>)
   \<and> user_map example_engine ''u1'' = Some 0
   \<and> user_map (snd (train_model_task example_libs returns_only example_products example_engine))
        ''u1'' = None
   \<and> build_interaction_matrix returns_only many_products =
        Inr \<lparr> shape = (1, 50), entries = [] \<rparr>
   \<and> fst (train_model_task example_libs returns_only many_products example_engine) = Finished
   \<and> user_factors (snd (train_model_task example_libs returns_only many_products example_engine))
       = Some [[0]]"
proof -
  have ne: "returns_only \<noteq> []"
    by (simp add: returns_only_def)
  have u: "build_user_map (unique (map user_id returns_only)) = [''u9'' \<mapsto> 0]"
    by (rule ext) (simp add: returns_only_def unique_def build_user_map_def dict_of_def)
  have a: "train_sync example_libs returns_only example_products example_engine =
       (Some ValueError,
        (register_items example_products (register_users returns_only example_engine))
          \<lparr> svd_model := Some Unfitted \<rparr>)"
    using ne by (simp add: train_sync_def train_run_small example_nonempty n_components_def)
  then have t: "train_model_task example_libs returns_only example_products example_engine =
       (Raised ValueError,
        (register_items example_products (register_users returns_only example_engine))
          \<lparr> svd_model := Some Unfitted \<rparr>)"
    using ne by (simp add: train_model_task_def)
  have b: "user_map example_engine ''u1'' = Some 0"
    by (simp add: example_engine_def example_user_map2)
  have c: "user_map (snd (train_model_task example_libs returns_only example_products
      example_engine)) ''u1'' = None"
    unfolding t by (simp add: register_items_def register_users_def u Let_def)
  have sm: "sentence_model example_engine \<or> st_available example_libs"
    by (simp add: example_libs_def)
  from train_sync_succeeds [OF ne example_nonempty(3) many_products_facts(3,1) sm
      many_products_facts(4)]
  obtain X ix where X: "build_interaction_matrix returns_only many_products = Inr X"
    and r: "train_sync example_libs returns_only many_products example_engine =
     (None,
      \<lparr> svd_model = Some (Fitted (snd (svd_solver example_libs n_components X))),
        sentence_model = True,
        faiss_index = Some ix,
        product_map = build_product_map (map p_id many_products),
        reverse_product_map = build_reverse_product_map (map p_id many_products),
        product_data = build_product_data many_products,
        user_map = build_user_map (unique (map user_id returns_only)),
        reverse_user_map = build_reverse_user_map (unique (map user_id returns_only)),
        initialized = True, user_factors = Some (fst (svd_solver example_libs n_components X)),
        svd_pkl = Stored (Fitted (snd (svd_solver example_libs n_components X)),
                    fst (svd_solver example_libs n_components X),
                    build_user_map (unique (map user_id returns_only)),
                    build_reverse_user_map (unique (map user_id returns_only))),
        product_index = Stored ix,
        mappings_pkl = Stored (build_product_map (map p_id many_products),
                    build_reverse_product_map (map p_id many_products),
                    build_product_data many_products) \<rparr>)"
    by blast
  from X have Xe: "X = \<lparr> shape = (1, 50), entries = [] \<rparr>"
    by (simp add: returns_only_matrices)
  have d: "fst (train_model_task example_libs returns_only many_products example_engine)
      = Finished"
    using ne by (simp add: train_model_task_def r)
  have e: "user_factors (snd (train_model_task example_libs returns_only many_products
      example_engine)) = Some [[0]]"
  proof -
    have "fst (svd_solver example_libs n_components X) = [[0]]"
      by (simp add: Xe example_libs_def n_components_def)
    then show ?thesis
      using ne by (simp add: train_model_task_def r)
  qed
  from returns_only_matrices(1) t b c returns_only_matrices(2) d e
  show ?thesis by (intro conjI)
qed

section \<open>Replacement of the artifact\<close>

text \<open>
  Claim C8, as amended. A build that completes replaces every attribute of the engine:
  the engine it leaves is the same whatever the engine was before, so a call made
  after the build has returned, and before the next one starts, reads the data of
  that one build only. (While a build runs, the attributes are replaced one by one.)
\<close>

theorem build_replaces_everything:
  assumes "fst (train_sync L ts ps s) = None"
      and "fst (train_sync L ts ps s') = None"
  shows "snd (train_sync L ts ps s) = snd (train_sync L ts ps s')
       \<and> recommend L (snd (train_sync L ts ps s)) uid k
           = recommend L (snd (train_sync L ts ps s')) uid k
       \<and> search L (snd (train_sync L ts ps s)) query k
           = search L (snd (train_sync L ts ps s')) query k"
proof -
  from train_sync_NoneD [OF assms(1)] obtain X factors comps ix where
    c: "ts \<noteq> []" "ps \<noteq> []" "build_interaction_matrix ts ps = Inr X"
      "fit_transform L n_components X = Inr (factors, comps)"
      "index_add (IndexFlatL2 (length (hd (map (\<lambda>p. encode L (description p)) ps))))
             (map (\<lambda>p. encode L (description p)) ps) = Inr ix"
      "distinct (map p_id ps)"
    and m: "sentence_model s \<or> st_available L"
    by blast
  from train_sync_NoneD [OF assms(2)] have m': "sentence_model s' \<or> st_available L"
    by blast
  have "snd (train_sync L ts ps s) = snd (train_sync L ts ps s')"
    unfolding train_sync_final [OF c(1-4) m c(5,6)] train_sync_final [OF c(1-4) m' c(5,6)] ..
  then show ?thesis by simp
qed

lemma later_facts:
  "later_transactions \<noteq> []"
  "build_user_map (unique (map user_id later_transactions)) = [''u2'' \<mapsto> 0, ''u1'' \<mapsto> 1]"
  "length (unique (map user_id later_transactions)) = 2"
proof -
  show "later_transactions \<noteq> []" by (simp add: later_transactions_def)
  show "build_user_map (unique (map user_id later_transactions)) = [''u2'' \<mapsto> 0, ''u1'' \<mapsto> 1]"
    by (rule ext) (simp add: later_transactions_def unique_def build_user_map_def dict_of_def)
  show "length (unique (map user_id later_transactions)) = 2"
    by (simp add: later_transactions_def unique_def)
qed

lemma later_build:
  assumes "sentence_model s \<or> st_available example_libs"
  shows "fst (train_sync example_libs later_transactions many_products s) = None"
    and "user_map (snd (train_sync example_libs later_transactions many_products s)) ''u1''
           = Some 1"
    and "user_factors (snd (train_sync example_libs later_transactions many_products s))
           = Some [[0, 0], [0, 0]]"
proof -
  from train_sync_succeeds [OF later_facts(1) example_nonempty(3) many_products_facts(3,1)
      assms many_products_facts(4)]
  obtain X ix where X: "build_interaction_matrix later_transactions many_products = Inr X"
    and r: "train_sync example_libs later_transactions many_products s =
     (None,
      \<lparr> svd_model = Some (Fitted (snd (svd_solver example_libs n_components X))),
        sentence_model = True,
        faiss_index = Some ix,
        product_map = build_product_map (map p_id many_products),
        reverse_product_map = build_reverse_product_map (map p_id many_products),
        product_data = build_product_data many_products,
        user_map = build_user_map (unique (map user_id later_transactions)),
        reverse_user_map = build_reverse_user_map (unique (map user_id later_transactions)),
        initialized = True, user_factors = Some (fst (svd_solver example_libs n_components X)),
        svd_pkl = Stored (Fitted (snd (svd_solver example_libs n_components X)),
                    fst (svd_solver example_libs n_components X),
                    build_user_map (unique (map user_id later_transactions)),
                    build_reverse_user_map (unique (map user_id later_transactions))),
        product_index = Stored ix,
        mappings_pkl = Stored (build_product_map (map p_id many_products),
                    build_reverse_product_map (map p_id many_products),
                    build_product_data many_products) \<rparr>)"
    by blast
  have "shape X = (length (unique (map user_id later_transactions)), length many_products)"
    using build_interaction_matrix_cell [of later_transactions many_products] X by auto
  then have f: "fst (svd_solver example_libs n_components X) = [[0, 0], [0, 0]]"
    by (simp add: example_libs_def n_components_def later_facts(3) example_nonempty
        numeral_2_eq_2)
  show "fst (train_sync example_libs later_transactions many_products s) = None"
    by (simp add: r)
  show "user_map (snd (train_sync example_libs later_transactions many_products s)) ''u1''
           = Some 1"
    by (simp add: r later_facts(2))
  show "user_factors (snd (train_sync example_libs later_transactions many_products s))
           = Some [[0, 0], [0, 0]]"
    by (simp add: r f)
qed

theorem build_replaces_everything_witness:
  "fst (train_sync example_libs later_transactions many_products init_engine) = None
   \<and> fst (train_sync example_libs later_transactions many_products example_engine) = None
   \<and> snd (train_sync example_libs later_transactions many_products init_engine)
       = snd (train_sync example_libs later_transactions many_products example_engine)"
proof -
  have a: "fst (train_sync example_libs later_transactions many_products init_engine) = None"
    by (rule later_build) (simp add: example_libs_def)
  have b: "fst (train_sync example_libs later_transactions many_products example_engine) = None"
    by (rule later_build) (simp add: example_libs_def)
  from build_replaces_everything [OF a b] a b show ?thesis by blast
qed

text \<open>
  Claim C8 as stated fails. The first assignment of a build that goes on to complete
  replaces the user mapping and leaves the user factors of the previous build in
  place. In that state \<open>u1\<close> has the new index 1 and the old factors of \<open>u2\<close>: a
  \<open>recommend\<close> call made then returns \<open>B\<close> for \<open>u1\<close>, where the previous artifact
  returns \<open>A\<close>.
\<close>

theorem torn_read_counterexample:
  "fst (train_sync example_libs later_transactions many_products example_engine) = None
   \<and> hd (snd (train_run example_libs later_transactions many_products example_engine))
       = register_users later_transactions example_engine
   \<and> user_map example_engine ''u1'' = Some 0
   \<and> user_map (register_users later_transactions example_engine) ''u1'' = Some 1
   \<and> user_map (snd (train_sync example_libs later_transactions many_products example_engine))
        ''u1'' = Some 1
   \<and> user_factors example_engine = Some [[1, 0], [0, 1]]
   \<and> user_factors (register_users later_transactions example_engine) = Some [[1, 0], [0, 1]]
   \<and> user_factors (snd (train_sync example_libs later_transactions many_products example_engine))
       = Some [[0, 0], [0, 0]]
   \<and> fst (recommend example_libs example_engine ''u1'' 1)
       = Inr [\<lparr> r_stock_code = ''A'', r_score = 2, r_name = Some ''alpha'' \<rparr>]
   \<and> fst (recommend example_libs (register_users later_transactions example_engine) ''u1'' 1)
       = Inr [\<lparr> r_stock_code = ''B'', r_score = 3, r_name = Some ''beta'' \<rparr>]"
proof -
  have sm: "sentence_model example_engine \<or> st_available example_libs"
    by (simp add: example_libs_def)
  note b = later_build [OF sm]
  from train_run_first [OF later_facts(1), of example_libs many_products example_engine]
  have h: "hd (snd (train_run example_libs later_transactions many_products example_engine))
       = register_users later_transactions example_engine"
    by auto
  have mid: "register_users later_transactions example_engine =
      example_engine\<lparr> user_map := [''u2'' \<mapsto> 0, ''u1'' \<mapsto> 1],
         reverse_user_map := build_reverse_user_map (unique (map user_id later_transactions)) \<rparr>"
    by (simp add: register_users_def Let_def later_facts(2))
  have c: "user_map example_engine ''u1'' = Some 0"
    and d: "user_factors example_engine = Some [[1, 0], [0, 1]]"
    by (simp_all add: example_engine_def example_user_map2)
  have e: "user_map (register_users later_transactions example_engine) ''u1'' = Some 1"
    and f: "user_factors (register_users later_transactions example_engine)
       = Some [[1, 0], [0, 1]]"
    by (simp_all add: mid d)
  have g: "fst (recommend example_libs example_engine ''u1'' 1)
       = Inr [\<lparr> r_stock_code = ''A'', r_score = 2, r_name = Some ''alpha'' \<rparr>]"
    by (simp add: recommend_def ensure_loaded_def example_engine_def
      example_user_map2 example_product_map example_product_data
      np_dot_def ncols_def dot_def column_def top_indices_def py_take_def example_argsort
      insertion_argsort_def upt_rec)
  have i: "fst (recommend example_libs (register_users later_transactions example_engine) ''u1'' 1)
       = Inr [\<lparr> r_stock_code = ''B'', r_score = 3, r_name = Some ''beta'' \<rparr>]"
    unfolding mid
    by (simp add: recommend_def ensure_loaded_def example_engine_def
      example_product_map example_product_data
      np_dot_def ncols_def dot_def column_def top_indices_def py_take_def example_argsort
      insertion_argsort_def upt_rec)
  from b(1) h c e b(2) d f b(3) g i show ?thesis by (intro conjI)
qed

section \<open>Training requests\<close>

lemma serve_triggers:
  "serve (replicate n Trigger) sv =
     (replicate n ''Training started in background.'',
      sv\<lparr> builds_running := builds_running sv + n \<rparr>)"
proof (induction n arbitrary: sv)
  case 0
  then show ?case by simp
next
  case (Suc n)
  then show ?case by (simp add: trigger_training_def)
qed

lemma serve_answers:
  "list_all (\<lambda>msg. msg = ''Training started in background.'') (fst (serve evs sv))"
proof (induction evs arbitrary: sv)
  case Nil
  then show ?case by simp
next
  case (Cons ev evs)
  then show ?case
    by (cases ev) (simp_all add: trigger_training_def case_prod_beta)
qed

lemma serve_count:
  "length (fst (serve evs sv)) = length (filter (\<lambda>ev. ev = Trigger) evs)"
proof (induction evs arbitrary: sv)
  case Nil
  then show ?case by simp
next
  case (Cons ev evs)
  then show ?case
    by (cases ev) (simp_all add: trigger_training_def case_prod_beta)
qed

text \<open>
  Claim C9, as amended. The training route accepts every request: whatever the
  server goes through, each request is answered with the message that training has
  started, one answer per request, and \<open>n\<close> requests in a row leave \<open>n\<close> more builds
  running. No request is rejected or held back while a build is in progress.
\<close>

theorem trigger_never_rejects:
  "list_all (\<lambda>msg. msg = ''Training started in background.'') (fst (serve evs sv))
   \<and> length (fst (serve evs sv)) = length (filter (\<lambda>ev. ev = Trigger) evs)
   \<and> builds_running (snd (serve (replicate n Trigger) sv)) = builds_running sv + n"
  by (simp add: serve_answers serve_count serve_triggers)

text \<open>
  Claim C9 as stated fails: a second request that arrives before the first build has
  returned is accepted as well, and two builds run at the same time.
\<close>

theorem two_builds_counterexample:
  "serve [Trigger, Trigger] \<lparr> builds_running = 0 \<rparr> =
     ([''Training started in background.'', ''Training started in background.''],
      \<lparr> builds_running = 2 \<rparr>)"
  by (simp add: trigger_training_def)

end
